theory Spec2Isabelle
  imports Complex_Main "HOL-Library.Log_Nat" "HOL-Library.AList"
begin

section \<open>Python values, exceptions and strings\<close>

text \<open>
  The program is a single Python module, \<^verbatim>\<open>main.py\<close>: a FastAPI application with a preview
  generator that runs at start-up and five request handlers. Every exception the handlers or the
  library calls can raise is a value of \<open>exn\<close> (the subclasses of \<^verbatim>\<open>Exception\<close>; an interrupt of
  the process is not one); a computation that may raise returns \<open>exn + 'a\<close> with \<open>Inl\<close> for the
  exception. \<open>OutOfFuel\<close> is not an exception of Python: it is the answer of a bounded recursion
  of this theory whose bound is used up, and is shown never to be the answer of the decoder.

  A \<open>bytes\<close> object is a \<open>string\<close> whose characters are the bytes. A path or a file name is
  kept as the bytes that the operating system sees (\<^verbatim>\<open>os.fsencode\<close> of the Python \<open>str\<close>): the
  operations of the program on paths look at ASCII characters only, which are single bytes in
  such a name and occur nowhere else in it. The text of a request (identifiers, JSON strings,
  the base64 payload) is a \<open>str\<close>: the list of its code points.
\<close>

type_synonym str = "nat list"

text \<open>An ASCII literal as a \<open>str\<close>.\<close>

definition lit :: "string \<Rightarrow> str" where
  "lit s = map of_char s"

datatype exn =
    HTTPException nat string
  | FileNotFoundError
  | IsADirectoryError
  | NotADirectoryError
  | JSONDecodeError
  | UnicodeDecodeError
  | BinasciiError
  | ValueError
  | ZeroDivisionError
  | OverflowError
  | UnicodeEncodeError
  | OSError
  | RecursionError
  | OutOfFuel

definition startswith :: "'a list \<Rightarrow> 'a list \<Rightarrow> bool" where
  "startswith s p = (take (length p) s = p)"

definition endswith :: "'a list \<Rightarrow> 'a list \<Rightarrow> bool" where
  "endswith s p = (length p \<le> length s \<and> drop (length s - length p) s = p)"

text \<open>\<^verbatim>\<open>s.split(sep)\<close> for a one-character separator: the list is never empty.\<close>

fun py_split :: "'a \<Rightarrow> 'a list \<Rightarrow> 'a list list" where
  "py_split sep [] = [[]]"
| "py_split sep (c # cs) =
     (if c = sep then [] # py_split sep cs
      else (case py_split sep cs of
              w # ws \<Rightarrow> (c # w) # ws
            | [] \<Rightarrow> [[c]]))"

text \<open>\<^verbatim>\<open>s.split(sep, 1)\<close>: at most one split, at the first separator.\<close>

fun py_split1 :: "'a \<Rightarrow> 'a list \<Rightarrow> 'a list list" where
  "py_split1 sep [] = [[]]"
| "py_split1 sep (c # cs) =
     (if c = sep then [[], cs]
      else (case py_split1 sep cs of
              w # ws \<Rightarrow> (c # w) # ws
            | [] \<Rightarrow> [[c]]))"

text \<open>\<^verbatim>\<open>xs[0]\<close>, which raises on an empty list.\<close>

definition item0 :: "'a list \<Rightarrow> exn + 'a" where
  "item0 xs = (case xs of [] \<Rightarrow> Inl ValueError | x # _ \<Rightarrow> Inr x)"

text \<open>\<^verbatim>\<open>s.rfind(c)\<close> as the number of characters up to and including the last \<open>c\<close>
  (that is \<^verbatim>\<open>s.rfind(c) + 1\<close>, which is 0 when \<open>c\<close> does not occur).\<close>

fun rfind1 :: "char \<Rightarrow> string \<Rightarrow> nat" where
  "rfind1 c [] = 0"
| "rfind1 c (x # xs) =
     (let r = rfind1 c xs in if 0 < r then Suc r else if x = c then 1 else 0)"

text \<open>\<^verbatim>\<open>s.rstrip(c)\<close> for one character.\<close>

definition rstrip :: "char \<Rightarrow> string \<Rightarrow> string" where
  "rstrip c s = rev (dropWhile (\<lambda>x. x = c) (rev s))"

text \<open>\<^verbatim>\<open>s.replace(a, b)\<close> for single characters.\<close>

definition replace_char :: "char \<Rightarrow> char \<Rightarrow> string \<Rightarrow> string" where
  "replace_char a b s = map (\<lambda>x. if x = a then b else x) s"

section \<open>posixpath\<close>

definition os_path_join :: "string \<Rightarrow> string \<Rightarrow> string" where
  "os_path_join a b =
     (if startswith b ''/'' then b
      else if a = [] \<or> endswith a ''/'' then a @ b
      else a @ ''/'' @ b)"

definition os_path_basename :: "string \<Rightarrow> string" where
  "os_path_basename p = drop (rfind1 CHR ''/'' p) p"

definition os_path_dirname :: "string \<Rightarrow> string" where
  "os_path_dirname p =
     (let head = take (rfind1 CHR ''/'' p) p
      in if head \<noteq> [] \<and> head \<noteq> replicate (length head) CHR ''/''
         then rstrip CHR ''/'' head else head)"

text \<open>\<^verbatim>\<open>genericpath._splitext\<close>: the extension starts at the last dot of the last path
  component, unless only dots precede it there.\<close>

definition os_path_splitext :: "string \<Rightarrow> string \<times> string" where
  "os_path_splitext p =
     (let sepIndex1 = rfind1 CHR ''/'' p; dotIndex1 = rfind1 CHR ''.'' p
      in if sepIndex1 < dotIndex1
            \<and> (\<exists>x \<in> set (take (dotIndex1 - 1 - sepIndex1) (drop sepIndex1 p)). x \<noteq> CHR ''.'')
         then (take (dotIndex1 - 1) p, drop (dotIndex1 - 1) p)
         else (p, []))"

section \<open>The file system\<close>

text \<open>
  A file system maps the path of a regular file to its bytes, and the path of a directory to
  \<open>Dir\<close>. The paths in the map are canonical: absolute (\<^verbatim>\<open>/a/b\<close>) or relative to the working
  directory (\<^verbatim>\<open>a/b\<close>, \<^verbatim>\<open>../a\<close>), without empty, \<^verbatim>\<open>.\<close> or inner \<^verbatim>\<open>..\<close> components. The root and the working
  directory (the empty path) with its ancestors always exist. A path given to \<^verbatim>\<open>open\<close> or \<^verbatim>\<open>stat\<close>
  is resolved component by component as the kernel does, every directory on the way being
  looked up, with the limits of Linux on the length of a name and of a path. Links,
  permissions and quotas are not modelled, and the working directory is not reached by an
  absolute path.
\<close>

datatype node = File string | Dir

type_synonym fs = "string \<rightharpoonup> node"

definition NAME_MAX :: nat where
  "NAME_MAX = 255"

definition PATH_MAX :: nat where
  "PATH_MAX = 4096"

text \<open>The directory above a canonical directory.\<close>

definition parent :: "string \<Rightarrow> string" where
  "parent cur =
     (if cur = ''/'' then ''/''
      else if cur = [] then ''..''
      else if os_path_basename cur = ''..'' then cur @ ''/..''
      else os_path_dirname cur)"

text \<open>The walk through the directories of a path, from the directory \<open>cur\<close>: each one must
  exist and be a directory.\<close>

fun walk_dirs :: "fs \<Rightarrow> string \<Rightarrow> string list \<Rightarrow> exn + string" where
  "walk_dirs fs cur [] = Inr cur"
| "walk_dirs fs cur (c # cs) =
     (if c = [] \<or> c = ''.'' then walk_dirs fs cur cs
      else if c = ''..'' then walk_dirs fs (parent cur) cs
      else if NAME_MAX < length c then Inl OSError
      else case fs (os_path_join cur c) of
             None \<Rightarrow> Inl FileNotFoundError
           | Some (File _) \<Rightarrow> Inl NotADirectoryError
           | Some Dir \<Rightarrow> walk_dirs fs (os_path_join cur c) cs)"

text \<open>What a path names: a directory for certain (the root, or a last component \<^verbatim>\<open>.\<close> or
  \<^verbatim>\<open>..\<close>), or an entry of a directory that exists, by its canonical path. Trailing slashes are
  not part of the last component.\<close>

datatype target = Directory | Entry string

definition trailing_slash :: "string \<Rightarrow> bool" where
  "trailing_slash path = (rstrip CHR ''/'' path \<noteq> path)"

definition resolve :: "fs \<Rightarrow> string \<Rightarrow> exn + target" where
  "resolve fs path =
     (if CHR 0x00 \<in> set path then Inl ValueError
      else if path = [] then Inl FileNotFoundError
      else if PATH_MAX \<le> length path then Inl OSError
      else let p = rstrip CHR ''/'' path
           in if p = [] then Inr Directory
              else case walk_dirs fs (if startswith p ''/'' then ''/'' else [])
                          (butlast (py_split CHR ''/'' p)) of
                     Inl e \<Rightarrow> Inl e
                   | Inr cur \<Rightarrow>
                       (let name = last (py_split CHR ''/'' p)
                        in if name = ''.'' \<or> name = ''..'' then Inr Directory
                           else Inr (Entry (os_path_join cur name))))"

text \<open>\<^verbatim>\<open>os.path.exists\<close>: \<^verbatim>\<open>os.stat\<close>, with every \<^verbatim>\<open>OSError\<close> and \<^verbatim>\<open>ValueError\<close> answered by
  \<^verbatim>\<open>False\<close>.\<close>

definition os_path_exists :: "fs \<Rightarrow> string \<Rightarrow> bool" where
  "os_path_exists fs path =
     (case resolve fs path of
        Inl e \<Rightarrow> False
      | Inr Directory \<Rightarrow> True
      | Inr (Entry q) \<Rightarrow>
          length (os_path_basename q) \<le> NAME_MAX
          \<and> (case fs q of
                None \<Rightarrow> False
              | Some Dir \<Rightarrow> True
              | Some (File _) \<Rightarrow> \<not> trailing_slash path))"

text \<open>\<^verbatim>\<open>open(path, "w")\<close> or \<^verbatim>\<open>"wb"\<close> (that is \<^verbatim>\<open>O_WRONLY|O_CREAT|O_TRUNC\<close>), the writes of the
  content, and \<^verbatim>\<open>close\<close>: creates or truncates the file.\<close>

definition write_file :: "fs \<Rightarrow> string \<Rightarrow> string \<Rightarrow> exn + fs" where
  "write_file fs path data =
     (case resolve fs path of
        Inl e \<Rightarrow> Inl e
      | Inr Directory \<Rightarrow> Inl IsADirectoryError
      | Inr (Entry q) \<Rightarrow>
          (if trailing_slash path then Inl IsADirectoryError
           else if NAME_MAX < length (os_path_basename q) then Inl OSError
           else case fs q of
                  Some Dir \<Rightarrow> Inl IsADirectoryError
                | _ \<Rightarrow> Inr (fs(q \<mapsto> File data))))"

text \<open>\<^verbatim>\<open>open(path, "r")\<close> and a read of the whole file, as bytes.\<close>

definition read_file :: "fs \<Rightarrow> string \<Rightarrow> exn + string" where
  "read_file fs path =
     (case resolve fs path of
        Inl e \<Rightarrow> Inl e
      | Inr Directory \<Rightarrow> Inl IsADirectoryError
      | Inr (Entry q) \<Rightarrow>
          (if NAME_MAX < length (os_path_basename q) then Inl OSError
           else case fs q of
                  None \<Rightarrow> Inl FileNotFoundError
                | Some Dir \<Rightarrow> Inl IsADirectoryError
                | Some (File data) \<Rightarrow>
                    if trailing_slash path then Inl NotADirectoryError else Inr data))"


definition DESIGNS_DIR :: "string \<Rightarrow> string" where
  "DESIGNS_DIR APP_ROOT = os_path_join APP_ROOT ''designs''"


section \<open>Floating-point arithmetic\<close>






text \<open>The other values of a \<open>float\<close>: the negative zero, the two infinities, and the one
  not-a-number that arithmetic and the JSON decoder produce.\<close>

datatype py_float = Finite rat | NegZero | Infinity | NegInfinity | NaN





section \<open>Template images and previews\<close>

text \<open>
  The template directory, the imaging library, the standard output and the interpreter are the
  environment of the program: the names a directory lists, in the order the operating system
  enumerates them; the directories that match a path with wildcards; what \<^verbatim>\<open>Image.open\<close>,
  \<^verbatim>\<open>resize\<close> and \<^verbatim>\<open>save\<close> do (a save acts on the file system and may fail after having changed
  it); the text of an exception; \<^verbatim>\<open>str.title\<close>; whether \<^verbatim>\<open>print\<close> of a line raises, given the lines
  printed before (the stream may be closed, or unable to encode the line); \<^verbatim>\<open>float.__repr__\<close>, an
  ASCII text, and \<^verbatim>\<open>float\<close> of a number literal; and how many containers, one inside the other,
  the limit on the depth of recursion lets \<^verbatim>\<open>json.dump\<close> write and \<^verbatim>\<open>json.load\<close> read where the
  handlers call them.
\<close>

record image =
  img_size :: "nat \<times> nat"
  img_data :: string

record env =
  listdir :: "string \<Rightarrow> string list"
  glob_dirs :: "string \<Rightarrow> string list"
  Image_open :: "string \<Rightarrow> exn + image"
  Image_resize :: "image \<Rightarrow> int \<times> int \<Rightarrow> exn + image"
  Image_save :: "image \<Rightarrow> string \<Rightarrow> string \<Rightarrow> nat \<Rightarrow> fs \<Rightarrow> exn option \<times> fs"
  exn_str :: "exn \<Rightarrow> string"
  str_title :: "string \<Rightarrow> string"
  stdout_write :: "string list \<Rightarrow> string \<Rightarrow> exn option"
  float_repr :: "py_float \<Rightarrow> string"
  float_of_str :: "str \<Rightarrow> py_float"
  dump_depth :: nat
  load_depth :: nat





text \<open>\<^verbatim>\<open>f"preview_{filename.split('.')[0]}.jpg"\<close>\<close>

definition preview_filename :: "string \<Rightarrow> string" where
  "preview_filename filename = ''preview_'' @ hd (py_split CHR ''.'' filename) @ ''.jpg''"








section \<open>The listing page\<close>

record template =
  t_id :: string
  t_name :: string
  t_width :: nat
  t_height :: nat
  t_preview_url :: string
  t_image_url :: string

text \<open>Lines 71 to 89, for one image: the entry and the line to print, if any.\<close>

definition template_entry :: "env \<Rightarrow> string \<Rightarrow> template \<times> string list" where
  "template_entry E img_path =
     (let filename = os_path_basename img_path;
          preview_path = ''/previews/'' @ preview_filename filename;
          (size, out) =
            (case Image_open E img_path of
               Inr img \<Rightarrow> (img_size img, [])
             | Inl e \<Rightarrow>
                 ((880, 1020),
                  [''Error getting dimensions for '' @ filename @ '': '' @ exn_str E e]))
      in (\<lparr>t_id = filename,
           t_name = str_title E (replace_char CHR ''_'' CHR '' '' (fst (os_path_splitext filename))),
           t_width = fst size,
           t_height = snd size,
           t_preview_url = preview_path,
           t_image_url = ''/templates_images/'' @ filename\<rparr>, out))"




section \<open>Properties of the preview generator and the listing\<close>

lemma py_split_nonempty: "py_split sep s \<noteq> []"
  by (induction s) (auto split: list.splits)

lemma hd_py_split: "hd (py_split sep s) = takeWhile (\<lambda>c. c \<noteq> sep) s"
proof (induction s)
  case Nil
  show ?case by simp
next
  case (Cons c cs)
  then show ?case
    using py_split_nonempty [of sep cs] by (cases "py_split sep cs") auto
qed






















text \<open>
  An environment for concrete runs: a template directory with three entries, one of which
  cannot be opened as an image, a library whose \<^verbatim>\<open>save\<close> writes the image data, a standard
  output that takes every line, the conversions of the \<open>float\<close> 1.5 and room for 990 nested
  containers.
\<close>

definition env0 :: env where
  "env0 =
     \<lparr>listdir = (\<lambda>dir. if dir = ''/app/templates_images''
                        then [''bad.jpg'', ''notes.txt'', ''good.png''] else []),
      glob_dirs = (\<lambda>pattern. []),
      Image_open = (\<lambda>path. if path = ''/app/templates_images/good.png''
                             then Inr \<lparr>img_size = (600, 400), img_data = ''PNG''\<rparr>
                             else Inl OSError),
      Image_resize = (\<lambda>img sz. Inr (img\<lparr>img_size := (nat (fst sz), nat (snd sz))\<rparr>)),
      Image_save = (\<lambda>img path format quality fs. (None, fs(path \<mapsto> File (img_data img)))),
      exn_str = (\<lambda>e. ''cannot identify image file''),
      str_title = (\<lambda>s. s),
      stdout_write = (\<lambda>out line. None),
      float_repr = (\<lambda>x. if x = Finite (3 / 2) then ''1.5'' else ''0.0''),
      float_of_str = (\<lambda>s. if s = lit ''1.5'' then Finite (3 / 2) else Finite 0),
      dump_depth = 990,
      load_depth = 990\<rparr>"







text \<open>
  C7. For a template named \<^verbatim>\<open>my.photo.jpg\<close> the preview is named \<^verbatim>\<open>preview_my.jpg\<close>: the
  name is cut at its first dot, where stripping the extension (as \<^verbatim>\<open>os.path.splitext\<close> does
  for the display name on line 84) gives \<^verbatim>\<open>preview_my.photo.jpg\<close>. The listing and the
  generator use the same name.
\<close>

theorem preview_filename_multi_dot:
  "preview_filename ''my.photo.jpg'' = ''preview_my.jpg''
   \<and> ''preview_'' @ fst (os_path_splitext ''my.photo.jpg'') @ ''.jpg'' = ''preview_my.photo.jpg''
   \<and> t_preview_url (fst (template_entry E ''/app/templates_images/my.photo.jpg''))
       = ''/previews/preview_my.jpg''"
  by (simp add: preview_filename_def os_path_splitext_def template_entry_def os_path_basename_def
      Let_def split: sum.splits)




section \<open>JSON documents\<close>

text \<open>
  The values that \<^verbatim>\<open>json.load\<close> builds and \<^verbatim>\<open>json.dump\<close> writes: \<open>None\<close>, \<open>bool\<close>, \<open>int\<close>,
  \<open>float\<close>, \<open>str\<close>, \<open>list\<close> and \<open>dict\<close> with \<open>str\<close> keys. A \<open>dict\<close> is the list of its items in
  insertion order, with distinct keys. Equality of two values is equality of Python (the one
  not-a-number of the decoder is a single object, which the comparison of containers takes as
  equal to itself).
\<close>

datatype json =
    JNull
  | JBool bool
  | JInt int
  | JFloat py_float
  | JStr str
  | JArr "json list"
  | JObj "(str \<times> json) list"

abbreviation DQ :: nat where "DQ \<equiv> 0x22"
abbreviation BS :: nat where "BS \<equiv> 0x5C"
abbreviation NL :: nat where "NL \<equiv> 0x0A"
abbreviation CR :: nat where "CR \<equiv> 0x0D"

subsection \<open>The encoder: \<^verbatim>\<open>json.dump(obj, f, indent=2)\<close>\<close>

definition hex_digit :: "nat \<Rightarrow> nat" where
  "hex_digit n = (if n < 10 then 48 + n else 87 + n)"

definition hex4 :: "nat \<Rightarrow> str" where
  "hex4 n = [hex_digit (n div 4096 mod 16), hex_digit (n div 256 mod 16),
             hex_digit (n div 16 mod 16), hex_digit (n mod 16)]"

text \<open>\<^verbatim>\<open>ensure_ascii\<close> is on: every character outside \<^verbatim>\<open>' '..'~'\<close>, the quote and the
  backslash are escaped, a code point from \<open>0x10000\<close> as a pair of surrogates.\<close>

definition ascii_escape :: "nat \<Rightarrow> str" where
  "ascii_escape c =
     (if c = DQ then [BS, DQ]
      else if c = BS then [BS, BS]
      else if c = 0x08 then BS # lit ''b''
      else if c = 0x0C then BS # lit ''f''
      else if c = NL then BS # lit ''n''
      else if c = CR then BS # lit ''r''
      else if c = 0x09 then BS # lit ''t''
      else if 0x20 \<le> c \<and> c \<le> 0x7E then [c]
      else if c < 0x10000 then BS # lit ''u'' @ hex4 c
      else BS # lit ''u'' @ hex4 (0xD800 + (c - 0x10000) div 1024)
           @ BS # lit ''u'' @ hex4 (0xDC00 + (c - 0x10000) mod 1024))"

definition encode_basestring_ascii :: "str \<Rightarrow> str" where
  "encode_basestring_ascii s = DQ # concat (map ascii_escape s) @ [DQ]"

function digits10 :: "nat \<Rightarrow> str" where
  "digits10 n = (if n < 10 then [48 + n] else digits10 (n div 10) @ [48 + n mod 10])"
  by pat_completeness auto
termination
  by (relation "measure id") auto

declare digits10.simps [simp del]

definition int_str :: "int \<Rightarrow> str" where
  "int_str i = (if i < 0 then lit ''-'' @ digits10 (nat (- i)) else digits10 (nat i))"

text \<open>\<^verbatim>\<open>int.__repr__\<close>: the conversion of an \<open>int\<close> of more than 4300 digits raises.\<close>

definition int_repr :: "int \<Rightarrow> exn + str" where
  "int_repr i = (if 4300 < length (digits10 (nat \<bar>i\<bar>)) then Inl ValueError else Inr (int_str i))"

text \<open>\<^verbatim>\<open>floatstr\<close>, with \<^verbatim>\<open>allow_nan\<close> on.\<close>

definition floatstr :: "env \<Rightarrow> py_float \<Rightarrow> str" where
  "floatstr E x =
     (case x of
        NaN \<Rightarrow> lit ''NaN''
      | Infinity \<Rightarrow> lit ''Infinity''
      | NegInfinity \<Rightarrow> lit ''-Infinity''
      | _ \<Rightarrow> lit (float_repr E x))"

definition newline_indent :: "nat \<Rightarrow> nat \<Rightarrow> str" where
  "newline_indent indent level = NL # replicate (indent * level) 0x20"

text \<open>
  \<^verbatim>\<open>json.dump\<close> writes the chunks that the generator \<^verbatim>\<open>_iterencode\<close> yields, one after the
  other, until the generator ends or raises. An encoding is the text written and the exception
  that ended it, if any. In a list, a value that is not a container is yielded in one chunk
  with the separator before it, so that neither is written when its conversion raises; a
  container in a list, and every value of a dict, comes after the separator and the key have
  been written. Each container is a generator of its own, one more frame of the interpreter:
  with no room left for it, it raises \<^verbatim>\<open>RecursionError\<close> before it writes anything.
\<close>

definition is_leaf :: "json \<Rightarrow> bool" where
  "is_leaf j = (case j of JArr _ \<Rightarrow> False | JObj _ \<Rightarrow> False | _ \<Rightarrow> True)"

fun list_chunks :: "str \<Rightarrow> str \<Rightarrow> (bool \<times> str \<times> exn option) list \<Rightarrow> str \<times> exn option" where
  "list_chunks buf separator [] = ([], None)"
| "list_chunks buf separator ((leaf, text, r) # rest) =
     (case r of
        Some e \<Rightarrow> (if leaf then [] else buf @ text, Some e)
      | None \<Rightarrow>
          (case list_chunks separator separator rest of
             (text', r') \<Rightarrow> (buf @ text @ text', r')))"

fun dict_chunks :: "bool \<Rightarrow> str \<Rightarrow> (str \<times> str \<times> exn option) list \<Rightarrow> str \<times> exn option" where
  "dict_chunks first item_separator [] = ([], None)"
| "dict_chunks first item_separator ((key, text, r) # rest) =
     (let head = (if first then [] else item_separator) @ encode_basestring_ascii key @ lit '': ''
      in case r of
           Some e \<Rightarrow> (head @ text, Some e)
         | None \<Rightarrow>
             (case dict_chunks False item_separator rest of
                (text', r') \<Rightarrow> (head @ text @ text', r')))"

text \<open>\<^verbatim>\<open>_iterencode\<close> with an indent: the item separator is a comma and the key separator a
  colon and a space; an empty list or dict is written without a line break. The first
  argument after the environment is the number of containers that may still be entered.\<close>

fun iterencode :: "env \<Rightarrow> nat \<Rightarrow> nat \<Rightarrow> nat \<Rightarrow> json \<Rightarrow> str \<times> exn option" where
  "iterencode E depth indent level JNull = (lit ''null'', None)"
| "iterencode E depth indent level (JBool b) = (if b then lit ''true'' else lit ''false'', None)"
| "iterencode E depth indent level (JInt i) =
     (case int_repr i of Inl e \<Rightarrow> ([], Some e) | Inr text \<Rightarrow> (text, None))"
| "iterencode E depth indent level (JFloat x) = (floatstr E x, None)"
| "iterencode E depth indent level (JStr s) = (encode_basestring_ascii s, None)"
| "iterencode E depth indent level (JArr xs) =
     (if depth = 0 then ([], Some RecursionError)
      else if xs = [] then (lit ''[]'', None)
      else case list_chunks (lit ''['' @ newline_indent indent (Suc level))
                  (lit '','' @ newline_indent indent (Suc level))
                  (map (\<lambda>x. (is_leaf x, iterencode E (depth - 1) indent (Suc level) x)) xs) of
             (text, Some e) \<Rightarrow> (text, Some e)
           | (text, None) \<Rightarrow> (text @ newline_indent indent level @ lit '']'', None))"
| "iterencode E depth indent level (JObj kvs) =
     (if depth = 0 then ([], Some RecursionError)
      else if kvs = [] then (lit ''{}'', None)
      else case dict_chunks True (lit '','' @ newline_indent indent (Suc level))
                  (map (\<lambda>kv. (fst kv, iterencode E (depth - 1) indent (Suc level) (snd kv))) kvs) of
             (text, Some e) \<Rightarrow> (lit ''{'' @ newline_indent indent (Suc level) @ text, Some e)
           | (text, None) \<Rightarrow>
               (lit ''{'' @ newline_indent indent (Suc level) @ text
                @ newline_indent indent level @ lit ''}'', None))"

definition json_dump :: "env \<Rightarrow> nat \<Rightarrow> json \<Rightarrow> str \<times> exn option" where
  "json_dump E indent obj = iterencode E (dump_depth E) indent 0 obj"

subsection \<open>The decoder: \<^verbatim>\<open>json.load(f)\<close>\<close>

definition is_ws :: "nat \<Rightarrow> bool" where
  "is_ws c = (c = 0x20 \<or> c = 0x09 \<or> c = NL \<or> c = CR)"

definition skip_ws :: "str \<Rightarrow> str" where
  "skip_ws s = dropWhile is_ws s"

definition is_digit :: "nat \<Rightarrow> bool" where
  "is_digit c = (48 \<le> c \<and> c \<le> 57)"

definition digit_val :: "nat \<Rightarrow> nat" where
  "digit_val c = c - 48"

definition hex_val :: "nat \<Rightarrow> nat option" where
  "hex_val n =
     (if 48 \<le> n \<and> n \<le> 57 then Some (n - 48)
      else if 97 \<le> n \<and> n \<le> 102 then Some (n - 97 + 10)
      else if 65 \<le> n \<and> n \<le> 70 then Some (n - 65 + 10)
      else None)"

text \<open>The four hexadecimal digits after \<^verbatim>\<open>\u\<close>.\<close>

definition decode_hex4 :: "str \<Rightarrow> nat option" where
  "decode_hex4 s =
     (case map hex_val s of
        [Some a, Some b, Some c, Some d] \<Rightarrow> Some (((a * 16 + b) * 16 + c) * 16 + d)
      | _ \<Rightarrow> None)"

definition unescape :: "nat \<Rightarrow> nat option" where
  "unescape c =
     (if c = DQ then Some DQ
      else if c = BS then Some BS
      else if c = 0x2F then Some 0x2F
      else if c = 0x62 then Some 0x08
      else if c = 0x66 then Some 0x0C
      else if c = 0x6E then Some NL
      else if c = 0x72 then Some CR
      else if c = 0x74 then Some 0x09
      else None)"

text \<open>After the four digits of a high surrogate: when more than six characters follow and
  the first two are \<^verbatim>\<open>\u\<close>, the next four must be hexadecimal digits, and make one code point
  with the first if they are a low surrogate. The answer is the code point and the number of
  characters taken.\<close>

definition surrogate_pair :: "nat \<Rightarrow> str \<Rightarrow> exn + (nat \<times> nat)" where
  "surrogate_pair n rest =
     (if 0xD800 \<le> n \<and> n \<le> 0xDBFF \<and> 6 < length rest \<and> take 2 rest = BS # lit ''u'' then
        (case decode_hex4 (take 4 (drop 2 rest)) of
           None \<Rightarrow> Inl JSONDecodeError
         | Some n2 \<Rightarrow>
             if 0xDC00 \<le> n2 \<and> n2 \<le> 0xDFFF
             then Inr (0x10000 + (n - 0xD800) * 1024 + (n2 - 0xDC00), 6)
             else Inr (n, 0))
      else Inr (n, 0))"

text \<open>\<^verbatim>\<open>scanstring\<close> in strict mode, from the character after the opening quote: the string
  read so far, then the input. The four digits of an escape must be followed by a character.\<close>

fun scanstring :: "str \<Rightarrow> str \<Rightarrow> exn + (str \<times> str)" where
  "scanstring acc [] = Inl JSONDecodeError"
| "scanstring acc (c # cs) =
     (if c = DQ then Inr (acc, cs)
      else if c = BS then
        (case cs of
           [] \<Rightarrow> Inl JSONDecodeError
         | e # r \<Rightarrow>
             if e = 0x75 then
               (if length r \<le> 4 then Inl JSONDecodeError
                else case decode_hex4 (take 4 r) of
                       None \<Rightarrow> Inl JSONDecodeError
                     | Some n \<Rightarrow>
                         (case surrogate_pair n (drop 4 r) of
                            Inl err \<Rightarrow> Inl err
                          | Inr (cp, k) \<Rightarrow> scanstring (acc @ [cp]) (drop (4 + k) r)))
             else (case unescape e of
                     None \<Rightarrow> Inl JSONDecodeError
                   | Some x \<Rightarrow> scanstring (acc @ [x]) r))
      else if c \<le> 0x1F then Inl JSONDecodeError
      else scanstring (acc @ [c]) cs)"

definition nat_of_digits :: "str \<Rightarrow> nat" where
  "nat_of_digits ds = foldl (\<lambda>a d. 10 * a + digit_val d) 0 ds"

text \<open>After the integer part: a fraction is a dot, a digit and the digits that follow; an
  exponent is \<^verbatim>\<open>e\<close> or \<^verbatim>\<open>E\<close>, a sign if something follows it, and at least one digit. Each function
  answers the part it has read, which is empty when there is none, and the input after it.\<close>

definition scan_frac :: "str \<Rightarrow> str \<times> str" where
  "scan_frac s =
     (case s of
        c # d # r \<Rightarrow>
          if c = 0x2E \<and> is_digit d then (c # d # takeWhile is_digit r, dropWhile is_digit r)
          else ([], s)
      | _ \<Rightarrow> ([], s))"

definition scan_exp :: "str \<Rightarrow> str \<times> str" where
  "scan_exp s =
     (case s of
        [] \<Rightarrow> ([], s)
      | c # r \<Rightarrow>
          if c = 0x65 \<or> c = 0x45 then
            (let (sign, r') =
                   (case r of
                      d # d' # t \<Rightarrow> if d = 0x2D \<or> d = 0x2B then ([d], d' # t) else ([], r)
                    | _ \<Rightarrow> ([], r))
             in if takeWhile is_digit r' = [] then ([], s)
                else (c # sign @ takeWhile is_digit r', dropWhile is_digit r'))
          else ([], s))"

text \<open>\<^verbatim>\<open>_match_number\<close>: an optional minus sign, then a single \<^verbatim>\<open>0\<close> or a digit from 1 to 9
  and as many digits as follow, then a fraction and an exponent. With neither the literal is
  given to \<^verbatim>\<open>int\<close>, which raises on more than 4300 digits, and otherwise to \<^verbatim>\<open>float\<close>.\<close>

definition match_number :: "env \<Rightarrow> str \<Rightarrow> exn + (json \<times> str)" where
  "match_number E s =
     (let neg = startswith s (lit ''-''); s1 = (if neg then drop 1 s else s)
      in case s1 of
           [] \<Rightarrow> Inl JSONDecodeError
         | c # cs \<Rightarrow>
             if is_digit c then
               (let ds = (if c = 0x30 then [c] else c # takeWhile is_digit cs);
                    rest = (if c = 0x30 then cs else dropWhile is_digit cs);
                    (frac, rest1) = scan_frac rest;
                    (ex, rest2) = scan_exp rest1
                in if frac = [] \<and> ex = [] then
                     (if 4300 < length ds then Inl ValueError
                      else Inr (JInt (if neg then - int (nat_of_digits ds)
                                      else int (nat_of_digits ds)), rest))
                   else Inr (JFloat (float_of_str E ((if neg then lit ''-'' else []) @ ds @ frac @ ex)),
                             rest2))
             else Inl JSONDecodeError)"

text \<open>A \<open>dict\<close> from the pairs in the order read: a repeated key keeps its place and takes the
  last value.\<close>

definition dict_of_pairs :: "(str \<times> json) list \<Rightarrow> (str \<times> json) list" where
  "dict_of_pairs pairs = foldl (\<lambda>d kv. AList.update (fst kv) (snd kv) d) [] pairs"

text \<open>
  \<^verbatim>\<open>scan_once\<close> with \<^verbatim>\<open>_parse_array\<close> and \<^verbatim>\<open>_parse_object\<close>. The first number bounds the
  number of calls, for the recursion to be well founded: \<^verbatim>\<open>json_loads\<close> starts with more than
  twice the length of the text. The second is the number of containers that may still be
  entered: with none left, the scanner raises \<^verbatim>\<open>RecursionError\<close> at the opening bracket. The
  loops are entered after the opening bracket and the white space behind it, when the
  container is not empty, and carry the items read so far.
\<close>

fun scan_once :: "env \<Rightarrow> nat \<Rightarrow> nat \<Rightarrow> str \<Rightarrow> exn + (json \<times> str)"
  and parse_array :: "env \<Rightarrow> nat \<Rightarrow> nat \<Rightarrow> json list \<Rightarrow> str \<Rightarrow> exn + (json \<times> str)"
  and parse_object :: "env \<Rightarrow> nat \<Rightarrow> nat \<Rightarrow> (str \<times> json) list \<Rightarrow> str \<Rightarrow> exn + (json \<times> str)"
where
  "scan_once E 0 depth s = Inl OutOfFuel"
| "scan_once E (Suc n) depth s =
     (case s of
        [] \<Rightarrow> Inl JSONDecodeError
      | c # cs \<Rightarrow>
          if c = DQ then
            (case scanstring [] cs of
               Inl e \<Rightarrow> Inl e
             | Inr (chars, rest) \<Rightarrow> Inr (JStr chars, rest))
          else if c = 0x7B then
            (if depth = 0 then Inl RecursionError
             else case skip_ws cs of
                    [] \<Rightarrow> Inl JSONDecodeError
                  | d # rest \<Rightarrow>
                      if d = 0x7D then Inr (JObj [], rest)
                      else parse_object E n (depth - 1) [] (d # rest))
          else if c = 0x5B then
            (if depth = 0 then Inl RecursionError
             else case skip_ws cs of
                    [] \<Rightarrow> Inl JSONDecodeError
                  | d # rest \<Rightarrow>
                      if d = 0x5D then Inr (JArr [], rest)
                      else parse_array E n (depth - 1) [] (d # rest))
          else if startswith s (lit ''null'') then Inr (JNull, drop 4 s)
          else if startswith s (lit ''true'') then Inr (JBool True, drop 4 s)
          else if startswith s (lit ''false'') then Inr (JBool False, drop 5 s)
          else if startswith s (lit ''NaN'') then Inr (JFloat NaN, drop 3 s)
          else if startswith s (lit ''Infinity'') then Inr (JFloat Infinity, drop 8 s)
          else if startswith s (lit ''-Infinity'') then Inr (JFloat NegInfinity, drop 9 s)
          else match_number E s)"
| "parse_array E 0 depth acc s = Inl OutOfFuel"
| "parse_array E (Suc n) depth acc s =
     (case scan_once E n depth s of
        Inl e \<Rightarrow> Inl e
      | Inr (val, rest) \<Rightarrow>
          (case skip_ws rest of
             [] \<Rightarrow> Inl JSONDecodeError
           | d # rest' \<Rightarrow>
               if d = 0x5D then Inr (JArr (acc @ [val]), rest')
               else if d = 0x2C then parse_array E n depth (acc @ [val]) (skip_ws rest')
               else Inl JSONDecodeError))"
| "parse_object E 0 depth acc s = Inl OutOfFuel"
| "parse_object E (Suc n) depth acc s =
     (case s of
        [] \<Rightarrow> Inl JSONDecodeError
      | q # cs \<Rightarrow>
          if q \<noteq> DQ then Inl JSONDecodeError
          else case scanstring [] cs of
                 Inl e \<Rightarrow> Inl e
               | Inr (key, rest) \<Rightarrow>
                   (case skip_ws rest of
                      [] \<Rightarrow> Inl JSONDecodeError
                    | d # rest1 \<Rightarrow>
                        if d \<noteq> 0x3A then Inl JSONDecodeError
                        else case scan_once E n depth (skip_ws rest1) of
                               Inl e \<Rightarrow> Inl e
                             | Inr (val, rest2) \<Rightarrow>
                                 (case skip_ws rest2 of
                                    [] \<Rightarrow> Inl JSONDecodeError
                                  | d' # rest3 \<Rightarrow>
                                      if d' = 0x7D
                                        then Inr (JObj (dict_of_pairs (acc @ [(key, val)])), rest3)
                                      else if d' = 0x2C
                                        then parse_object E n depth (acc @ [(key, val)]) (skip_ws rest3)
                                      else Inl JSONDecodeError)))"

text \<open>\<^verbatim>\<open>json.loads\<close>: no byte order mark, then white space, one value, white space, and
  nothing more.\<close>

definition json_loads :: "env \<Rightarrow> str \<Rightarrow> exn + json" where
  "json_loads E s =
     (if startswith s [0xFEFF] then Inl JSONDecodeError
      else case scan_once E (Suc (2 * length s)) (load_depth E) (skip_ws s) of
             Inl e \<Rightarrow> Inl e
           | Inr (obj, rest) \<Rightarrow> if skip_ws rest = [] then Inr obj else Inl JSONDecodeError)"

subsection \<open>Text files\<close>

text \<open>The UTF-8 encoding of a code point. A surrogate has none.\<close>

definition utf8_bytes :: "nat \<Rightarrow> exn + string" where
  "utf8_bytes c =
     (if c < 0x80 then Inr [char_of c]
      else if c < 0x800 then Inr [char_of (0xC0 + c div 64), char_of (0x80 + c mod 64)]
      else if 0xD800 \<le> c \<and> c \<le> 0xDFFF then Inl UnicodeEncodeError
      else if c < 0x10000 then
        Inr [char_of (0xE0 + c div 4096), char_of (0x80 + c div 64 mod 64), char_of (0x80 + c mod 64)]
      else Inr [char_of (0xF0 + c div 262144), char_of (0x80 + c div 4096 mod 64),
                char_of (0x80 + c div 64 mod 64), char_of (0x80 + c mod 64)])"

fun encode_utf8 :: "str \<Rightarrow> exn + string" where
  "encode_utf8 [] = Inr []"
| "encode_utf8 (c # cs) =
     (case utf8_bytes c of
        Inl e \<Rightarrow> Inl e
      | Inr bs \<Rightarrow> (case encode_utf8 cs of Inl e \<Rightarrow> Inl e | Inr rest \<Rightarrow> Inr (bs @ rest)))"

text \<open>\<^verbatim>\<open>os.fsencode\<close>: UTF-8 with the error handler \<^verbatim>\<open>surrogateescape\<close>, for which the
  surrogates \<open>0xDC80\<close> to \<open>0xDCFF\<close> stand for the bytes \<open>0x80\<close> to \<open>0xFF\<close>.\<close>

fun fsencode :: "str \<Rightarrow> exn + string" where
  "fsencode [] = Inr []"
| "fsencode (c # cs) =
     (case (if 0xDC80 \<le> c \<and> c \<le> 0xDCFF then Inr [char_of (c - 0xDC00)] else utf8_bytes c) of
        Inl e \<Rightarrow> Inl e
      | Inr bs \<Rightarrow> (case fsencode cs of Inl e \<Rightarrow> Inl e | Inr rest \<Rightarrow> Inr (bs @ rest)))"

text \<open>Strict decoding: the sequences of one to four bytes of the code points up to
  \<open>0x10FFFF\<close>, each in its shortest form, and no surrogate.\<close>

definition continuation :: "char \<Rightarrow> bool" where
  "continuation b = (0x80 \<le> (of_char b :: nat) \<and> (of_char b :: nat) < 0xC0)"

definition low6 :: "char \<Rightarrow> nat" where
  "low6 b = (of_char b :: nat) - 0x80"

fun decode_utf8 :: "string \<Rightarrow> exn + str" where
  "decode_utf8 [] = Inr []"
| "decode_utf8 (b # bs) =
     (let n = (of_char b :: nat)
      in if n < 0x80 then
           (case decode_utf8 bs of Inl e \<Rightarrow> Inl e | Inr s \<Rightarrow> Inr (n # s))
         else if 0xC2 \<le> n \<and> n < 0xE0 then
           (case bs of
              b2 # bs' \<Rightarrow>
                if continuation b2 then
                  (case decode_utf8 bs' of
                     Inl e \<Rightarrow> Inl e
                   | Inr s \<Rightarrow> Inr (((n - 0xC0) * 64 + low6 b2) # s))
                else Inl UnicodeDecodeError
            | _ \<Rightarrow> Inl UnicodeDecodeError)
         else if 0xE0 \<le> n \<and> n < 0xF0 then
           (case bs of
              b2 # b3 # bs' \<Rightarrow>
                if continuation b2 \<and> continuation b3
                   \<and> (if n = 0xE0 then 0xA0 \<le> (of_char b2 :: nat)
                       else if n = 0xED then (of_char b2 :: nat) < 0xA0 else True) then
                  (case decode_utf8 bs' of
                     Inl e \<Rightarrow> Inl e
                   | Inr s \<Rightarrow> Inr ((((n - 0xE0) * 64 + low6 b2) * 64 + low6 b3) # s))
                else Inl UnicodeDecodeError
            | _ \<Rightarrow> Inl UnicodeDecodeError)
         else if 0xF0 \<le> n \<and> n < 0xF5 then
           (case bs of
              b2 # b3 # b4 # bs' \<Rightarrow>
                if continuation b2 \<and> continuation b3 \<and> continuation b4
                   \<and> (if n = 0xF0 then 0x90 \<le> (of_char b2 :: nat)
                       else if n = 0xF4 then (of_char b2 :: nat) < 0x90 else True) then
                  (case decode_utf8 bs' of
                     Inl e \<Rightarrow> Inl e
                   | Inr s \<Rightarrow>
                       Inr (((((n - 0xF0) * 64 + low6 b2) * 64 + low6 b3) * 64 + low6 b4) # s))
                else Inl UnicodeDecodeError
            | _ \<Rightarrow> Inl UnicodeDecodeError)
         else Inl UnicodeDecodeError)"

text \<open>Reading in text mode translates \<^verbatim>\<open>\r\n\<close> and \<^verbatim>\<open>\r\<close> to \<^verbatim>\<open>\n\<close>.\<close>

fun universal_newlines :: "str \<Rightarrow> str" where
  "universal_newlines [] = []"
| "universal_newlines [c] = (if c = CR then [NL] else [c])"
| "universal_newlines (c # d # cs) =
     (if c = CR \<and> d = NL then NL # universal_newlines cs
      else if c = CR then NL # universal_newlines (d # cs)
      else c # universal_newlines (d # cs))"

section \<open>Base64\<close>

text \<open>\<^verbatim>\<open>table_a2b_base64\<close>: the value of a character of the alphabet.\<close>

definition b64_value :: "char \<Rightarrow> nat option" where
  "b64_value c =
     (let n = (of_char c :: nat)
      in if 65 \<le> n \<and> n \<le> 90 then Some (n - 65)
         else if 97 \<le> n \<and> n \<le> 122 then Some (n - 97 + 26)
         else if 48 \<le> n \<and> n \<le> 57 then Some (n - 48 + 52)
         else if c = CHR ''+'' then Some 62
         else if c = CHR ''/'' then Some 63
         else None)"

text \<open>
  \<^verbatim>\<open>binascii.a2b_base64\<close> in its default, non-strict mode: the loop over the input with its
  variables \<open>quad_pos\<close>, \<open>leftchar\<close> and \<open>pads\<close> and the bytes produced so far. A character
  outside the alphabet is skipped; a padding character ends the input once the quad is
  complete. Shifts are written as multiplications and divisions by powers of two.
\<close>

fun a2b_loop :: "string \<Rightarrow> nat \<Rightarrow> nat \<Rightarrow> nat \<Rightarrow> string \<Rightarrow> exn + string" where
  "a2b_loop [] quad_pos leftchar pads out =
     (if quad_pos \<noteq> 0 then Inl BinasciiError else Inr out)"
| "a2b_loop (c # cs) quad_pos leftchar pads out =
     (if c = CHR ''='' then
        (if 2 \<le> quad_pos \<and> 4 \<le> quad_pos + (pads + 1) then Inr out
         else a2b_loop cs quad_pos leftchar (if 2 \<le> quad_pos then pads + 1 else pads) out)
      else case b64_value c of
             None \<Rightarrow> a2b_loop cs quad_pos leftchar pads out
           | Some v \<Rightarrow>
               if quad_pos = 0 then a2b_loop cs 1 v 0 out
               else if quad_pos = 1 then
                 a2b_loop cs 2 (v mod 16) 0 (out @ [char_of (leftchar * 4 + v div 16)])
               else if quad_pos = 2 then
                 a2b_loop cs 3 (v mod 4) 0 (out @ [char_of (leftchar * 16 + v div 4)])
               else a2b_loop cs 0 0 0 (out @ [char_of (leftchar * 64 + v)]))"

text \<open>\<^verbatim>\<open>base64.b64decode(s)\<close> on a \<open>str\<close>: the string must be ASCII, and is decoded as its
  bytes.\<close>

definition b64decode :: "str \<Rightarrow> exn + string" where
  "b64decode s =
     (if \<exists>c \<in> set s. 128 \<le> c then Inl ValueError
      else a2b_loop (map char_of s) 0 0 0 [])"

text \<open>The alphabet: \<^verbatim>\<open>A\<close> to \<^verbatim>\<open>Z\<close>, \<^verbatim>\<open>a\<close> to \<^verbatim>\<open>z\<close>, \<^verbatim>\<open>0\<close> to \<^verbatim>\<open>9\<close>, \<^verbatim>\<open>+\<close> and \<^verbatim>\<open>/\<close>.\<close>

definition b64_char :: "nat \<Rightarrow> char" where
  "b64_char n =
     (if n < 26 then char_of (65 + n)
      else if n < 52 then char_of (97 + (n - 26))
      else if n < 62 then char_of (48 + (n - 52))
      else if n = 62 then CHR ''+'' else CHR ''/'')"

text \<open>The standard encoding (RFC 4648, with padding) that the client applies to the bytes of
  the image before the upload; it is the reference for the round trip.\<close>

fun b64encode :: "string \<Rightarrow> string" where
  "b64encode [] = []"
| "b64encode [a] =
     (let x = (of_char a :: nat)
      in [b64_char (x div 4), b64_char (x mod 4 * 16), CHR ''='', CHR ''=''])"
| "b64encode [a, b] =
     (let x = (of_char a :: nat); y = (of_char b :: nat)
      in [b64_char (x div 4), b64_char (x mod 4 * 16 + y div 16), b64_char (y mod 16 * 4),
          CHR ''=''])"
| "b64encode (a # b # c # rest) =
     (let x = (of_char a :: nat); y = (of_char b :: nat); z = (of_char c :: nat)
      in [b64_char (x div 4), b64_char (x mod 4 * 16 + y div 16),
          b64_char (y mod 16 * 4 + z div 64), b64_char (z mod 64)] @ b64encode rest)"

section \<open>The design store\<close>

text \<open>
  The request handlers act on the file system and answer with a JSON value or raise. The
  random \<^verbatim>\<open>uuid.uuid4().hex\<close> is an input: the 32 hexadecimal digits that the call returns.
  The path of a design is kept as the bytes given to the operating system, the encoding of a
  joined path being the join of the encodings; a name that cannot be encoded makes \<^verbatim>\<open>open\<close>
  raise and \<^verbatim>\<open>os.path.exists\<close> answer \<^verbatim>\<open>False\<close>.
\<close>

record SavePayload =
  payload_design_id :: "str option"
  payload_template_id :: str
  payload_design_json :: "(str \<times> json) list"

text \<open>\<^verbatim>\<open>x or y\<close> on an optional string: \<open>None\<close> and the empty string are false.\<close>

definition py_or :: "str option \<Rightarrow> str \<Rightarrow> str" where
  "py_or x y = (case x of None \<Rightarrow> y | Some v \<Rightarrow> if v = [] then y else v)"

text \<open>\<^verbatim>\<open>os.path.join(DESIGNS_DIR, f"{design_id}.json")\<close>, from the bytes of the identifier.\<close>

definition design_path :: "string \<Rightarrow> string \<Rightarrow> string" where
  "design_path APP_ROOT design_id = os_path_join (DESIGNS_DIR APP_ROOT) (design_id @ ''.json'')"

text \<open>The dictionary written on line 126.\<close>

definition design_document :: "str \<Rightarrow> SavePayload \<Rightarrow> json" where
  "design_document design_id payload =
     JObj [(lit ''design_id'', JStr design_id),
           (lit ''template_id'', JStr (payload_template_id payload)),
           (lit ''design'', JObj (payload_design_json payload))]"

text \<open>The handler of \<^verbatim>\<open>POST /save\<close>. The file is opened first, and holds what \<^verbatim>\<open>json.dump\<close>
  has written when it ends or raises.\<close>

definition save_design :: "env \<Rightarrow> string \<Rightarrow> string \<Rightarrow> SavePayload \<Rightarrow> fs \<Rightarrow> (exn + json) \<times> fs" where
  "save_design E APP_ROOT uuid_hex payload fs =
     (let design_id = py_or (payload_design_id payload) (lit (''design_'' @ take 12 uuid_hex))
      in case fsencode design_id of
           Inl e \<Rightarrow> (Inl e, fs)
         | Inr name \<Rightarrow>
             (let path = design_path APP_ROOT name;
                  (text, r) = json_dump E 2 (design_document design_id payload)
              in case encode_utf8 text of
                   Inl e \<Rightarrow> (Inl e, fs)
                 | Inr bytes \<Rightarrow>
                     (case write_file fs path bytes of
                        Inl e \<Rightarrow> (Inl e, fs)
                      | Inr fs' \<Rightarrow>
                          (case r of
                             Some e \<Rightarrow> (Inl e, fs')
                           | None \<Rightarrow>
                               (Inr (JObj [(lit ''status'', JStr (lit ''ok'')),
                                           (lit ''design_id'', JStr design_id)]), fs')))))"

text \<open>The handler of \<^verbatim>\<open>GET /design/{design_id}\<close>.\<close>

definition get_design :: "env \<Rightarrow> string \<Rightarrow> str \<Rightarrow> fs \<Rightarrow> (exn + json) \<times> fs" where
  "get_design E APP_ROOT design_id fs =
     (case fsencode design_id of
        Inl e \<Rightarrow> (Inl (HTTPException 404 ''Design not found''), fs)
      | Inr name \<Rightarrow>
          (let path = design_path APP_ROOT name
           in if \<not> os_path_exists fs path then (Inl (HTTPException 404 ''Design not found''), fs)
              else case read_file fs path of
                     Inl e \<Rightarrow> (Inl e, fs)
                   | Inr bytes \<Rightarrow>
                       (case decode_utf8 bytes of
                          Inl e \<Rightarrow> (Inl e, fs)
                        | Inr text \<Rightarrow> (json_loads E (universal_newlines text), fs))))"

text \<open>Lines 141 to 145: the bytes of the payload, after an optional data-URI header.\<close>

definition image_bytes :: "str \<Rightarrow> exn + string" where
  "image_bytes image_b64 =
     (case (if startswith image_b64 (lit ''data:'')
            then (case py_split1 0x2C image_b64 of
                    [header, b64] \<Rightarrow> Inr b64
                  | _ \<Rightarrow> Inl ValueError)
            else Inr image_b64) of
        Inl e \<Rightarrow> Inl e
      | Inr b64 \<Rightarrow> b64decode b64)"

text \<open>The handler of \<^verbatim>\<open>POST /export\<close>, with the form fields \<open>image_b64\<close> and \<open>filename\<close>.\<close>

definition export_image ::
  "string \<Rightarrow> string \<Rightarrow> str \<Rightarrow> str option \<Rightarrow> fs \<Rightarrow> (exn + json) \<times> fs" where
  "export_image APP_ROOT uuid_hex image_b64 filename fs =
     (case image_bytes image_b64 of
        Inl e \<Rightarrow> (Inl e, fs)
      | Inr data \<Rightarrow>
          (let fname = py_or filename (lit (''export_'' @ take 8 uuid_hex @ ''.png''))
           in case fsencode fname of
                Inl e \<Rightarrow> (Inl e, fs)
              | Inr name \<Rightarrow>
                  (let path = os_path_join (DESIGNS_DIR APP_ROOT) name
                   in case write_file fs path data of
                        Inl e \<Rightarrow> (Inl e, fs)
                      | Inr fs' \<Rightarrow>
                          (Inr (JObj [(lit ''status'', JStr (lit ''ok'')),
                                      (lit ''file'', JStr fname)]), fs'))))"

text \<open>
  Conditions under which a handler can write. The name is that of an entry of a directory:
  not empty, not \<^verbatim>\<open>.\<close> or \<^verbatim>\<open>..\<close>, without a slash or a zero byte, and of at most 255 bytes. The
  designs directory exists, as it does after the start-up code of lines 19 to 21, under its
  canonical path, which leaves room for such a name. The UUID has 32 hexadecimal digits.
\<close>

definition plain_name :: "string \<Rightarrow> bool" where
  "plain_name name =
     (name \<noteq> [] \<and> name \<noteq> ''.'' \<and> name \<noteq> ''..''
      \<and> CHR ''/'' \<notin> set name \<and> CHR 0x00 \<notin> set name \<and> length name \<le> NAME_MAX)"

definition store_ready :: "string \<Rightarrow> fs \<Rightarrow> bool" where
  "store_ready APP_ROOT fs =
     (CHR 0x00 \<notin> set APP_ROOT
      \<and> length (DESIGNS_DIR APP_ROOT) + NAME_MAX + 1 < PATH_MAX
      \<and> walk_dirs fs (if startswith (DESIGNS_DIR APP_ROOT) ''/'' then ''/'' else [])
            (py_split CHR ''/'' (DESIGNS_DIR APP_ROOT)) = Inr (DESIGNS_DIR APP_ROOT))"


text \<open>A store for concrete runs: an application in \<^verbatim>\<open>/app\<close> whose designs directory is empty.\<close>

definition uuid0 :: string where
  "uuid0 = ''0123456789abcdef0123456789abcdef''"

definition fs0 :: fs where
  "fs0 = [''/app'' \<mapsto> Dir, ''/app/designs'' \<mapsto> Dir]"

section \<open>Paths in the designs directory\<close>

lemma startswith_Cons: "startswith s [c] = (s \<noteq> [] \<and> hd s = c)"
  by (cases s) (auto simp: startswith_def)

lemma endswith_single: "endswith s [c] = (s \<noteq> [] \<and> last s = c)"
proof (cases s rule: rev_cases)
  case Nil
  then show ?thesis by (simp add: endswith_def)
next
  case (snoc ys y)
  then show ?thesis by (auto simp: endswith_def)
qed

lemma DESIGNS_DIR_eq:
  "DESIGNS_DIR R = R @ ''designs'' \<or> DESIGNS_DIR R = R @ ''/designs''"
  by (simp add: DESIGNS_DIR_def os_path_join_def startswith_def)

lemma DESIGNS_DIR_last: "DESIGNS_DIR R \<noteq> [] \<and> last (DESIGNS_DIR R) = CHR ''s''"
  using DESIGNS_DIR_eq [of R] by auto

lemma join_plain:
  assumes "CHR ''/'' \<notin> set name"
  shows "os_path_join (DESIGNS_DIR R) name = DESIGNS_DIR R @ CHR ''/'' # name"
proof -
  have "\<not> startswith name ''/''"
    using assms by (cases name) (auto simp: startswith_def)
  moreover have "\<not> endswith (DESIGNS_DIR R) ''/''"
    using DESIGNS_DIR_last [of R] by (simp add: endswith_single)
  ultimately show ?thesis
    using DESIGNS_DIR_last [of R] by (simp add: os_path_join_def)
qed

lemma rfind1_append_notin: "c \<notin> set ys \<Longrightarrow> rfind1 c (xs @ c # ys) = Suc (length xs)"
proof (induction xs)
  case Nil
  have "rfind1 c ys = 0" using Nil by (induction ys) (auto simp: Let_def)
  then show ?case by (simp add: Let_def)
next
  case (Cons x xs)
  then show ?case by (simp add: Let_def)
qed

lemma rstrip_no_trailing: "s \<noteq> [] \<Longrightarrow> last s \<noteq> c \<Longrightarrow> rstrip c (s @ [c]) = s"
  by (cases s rule: rev_cases) (auto simp: rstrip_def)

lemma rstrip_id: "s \<noteq> [] \<Longrightarrow> last s \<noteq> c \<Longrightarrow> rstrip c s = s"
  by (cases s rule: rev_cases) (auto simp: rstrip_def)

lemma not_all_sep:
  assumes "s \<noteq> []" and "last s \<noteq> c"
  shows "s @ [c] \<noteq> replicate (length (s @ [c])) c"
proof
  assume "s @ [c] = replicate (length (s @ [c])) c"
  then have "s @ [c] = replicate (length s) c @ [c]"
    by (simp add: replicate_append_same)
  then have "s = replicate (length s) c"
    by simp
  then have "last s = c"
    using assms(1) by (metis last_replicate length_0_conv)
  then show False
    using assms(2) by simp
qed

lemma dirname_plain:
  assumes "CHR ''/'' \<notin> set name"
  shows "os_path_dirname (DESIGNS_DIR R @ CHR ''/'' # name) = DESIGNS_DIR R"
proof -
  let ?D = "DESIGNS_DIR R"
  have r: "rfind1 CHR ''/'' (?D @ CHR ''/'' # name) = Suc (length ?D)"
    using assms by (rule rfind1_append_notin)
  have ne: "?D \<noteq> []" and l: "last ?D = CHR ''s''"
    using DESIGNS_DIR_last [of R] by auto
  have "?D @ ''/'' \<noteq> replicate (length (?D @ ''/'')) CHR ''/''"
    using ne l by (intro not_all_sep) auto
  moreover have "rstrip CHR ''/'' (?D @ ''/'') = ?D"
    using ne l by (intro rstrip_no_trailing) auto
  ultimately show ?thesis
    using r by (simp add: os_path_dirname_def Let_def)
qed

lemma basename_plain:
  assumes "CHR ''/'' \<notin> set name"
  shows "os_path_basename (DESIGNS_DIR R @ CHR ''/'' # name) = name"
  using rfind1_append_notin [OF assms, of "DESIGNS_DIR R"] by (simp add: os_path_basename_def)

lemma NUL_DESIGNS_DIR: "CHR 0x00 \<notin> set R \<Longrightarrow> CHR 0x00 \<notin> set (DESIGNS_DIR R)"
  using DESIGNS_DIR_eq [of R] by auto

lemma py_split_nonempty': "py_split sep s \<noteq> []"
  by (induction s) (auto split: list.splits)

lemma py_split_append: "py_split sep (a @ sep # b) = py_split sep a @ py_split sep b"
proof (induction a)
  case Nil
  show ?case by simp
next
  case (Cons c a)
  then show ?case
    using py_split_nonempty' [of sep a] by (cases "py_split sep a") auto
qed

lemma py_split_notin: "sep \<notin> set s \<Longrightarrow> py_split sep s = [s]"
  by (induction s) auto

text \<open>A plain name in the designs directory resolves to the entry of that name.\<close>

lemma resolve_plain:
  assumes "store_ready R fs" and "plain_name name"
  shows "resolve fs (os_path_join (DESIGNS_DIR R) name)
           = Inr (Entry (os_path_join (DESIGNS_DIR R) name))"
proof -
  let ?D = "DESIGNS_DIR R"
  let ?p = "?D @ CHR ''/'' # name"
  have s: "CHR ''/'' \<notin> set name" and ne: "name \<noteq> []" and d: "name \<noteq> ''.''" "name \<noteq> ''..''"
    and z: "CHR 0x00 \<notin> set name" and l: "length name \<le> NAME_MAX"
    using assms(2) by (simp_all add: plain_name_def)
  have p: "os_path_join ?D name = ?p" using s by (rule join_plain)
  have nul: "CHR 0x00 \<notin> set ?p"
    using assms(1) z NUL_DESIGNS_DIR [of R] by (simp add: store_ready_def)
  have len: "\<not> PATH_MAX \<le> length ?p"
    using assms(1) l by (simp add: store_ready_def)
  have "last name \<in> set name" using ne by simp
  then have "last name \<noteq> CHR ''/''" using s by metis
  then have "last ?p \<noteq> CHR ''/''" using ne by simp
  then have rs: "rstrip CHR ''/'' ?p = ?p"
    by (intro rstrip_id) simp_all
  have sp: "py_split CHR ''/'' ?p = py_split CHR ''/'' ?D @ [name]"
    using s by (simp add: py_split_append py_split_notin)
  have sw: "startswith ?p ''/'' = startswith ?D ''/''"
    using DESIGNS_DIR_last [of R] by (cases ?D) (simp_all add: startswith_def)
  have w: "walk_dirs fs (if startswith ?D ''/'' then ''/'' else []) (py_split CHR ''/'' ?D) = Inr ?D"
    using assms(1) by (simp add: store_ready_def)
  have "resolve fs ?p = Inr (Entry (os_path_join ?D name))"
    unfolding resolve_def using nul len d w by (simp add: rs sp sw Let_def)
  then show ?thesis
    by (simp only: p)
qed

lemma trailing_plain:
  assumes "plain_name name"
  shows "\<not> trailing_slash (os_path_join (DESIGNS_DIR R) name)"
proof -
  have s: "CHR ''/'' \<notin> set name" and ne: "name \<noteq> []"
    using assms by (simp_all add: plain_name_def)
  have "last name \<in> set name" using ne by simp
  then have "last name \<noteq> CHR ''/''" using s by metis
  then have "last (DESIGNS_DIR R @ CHR ''/'' # name) \<noteq> CHR ''/''" using ne by simp
  then have "rstrip CHR ''/'' (DESIGNS_DIR R @ CHR ''/'' # name) = DESIGNS_DIR R @ CHR ''/'' # name"
    by (intro rstrip_id) simp_all
  then show ?thesis
    by (simp add: trailing_slash_def join_plain [OF s])
qed

lemma write_file_plain:
  assumes "store_ready R fs" and "plain_name name"
    and "fs (os_path_join (DESIGNS_DIR R) name) \<noteq> Some Dir"
  shows "write_file fs (os_path_join (DESIGNS_DIR R) name) data
           = Inr (fs(os_path_join (DESIGNS_DIR R) name \<mapsto> File data))"
proof -
  have s: "CHR ''/'' \<notin> set name" and l: "length name \<le> NAME_MAX"
    using assms(2) by (simp_all add: plain_name_def)
  have b: "os_path_basename (os_path_join (DESIGNS_DIR R) name) = name"
    by (simp add: join_plain [OF s] basename_plain [OF s])
  show ?thesis
    unfolding write_file_def
    using assms(3) l trailing_plain [OF assms(2), of R]
    by (simp add: resolve_plain [OF assms(1,2)] b split: option.split node.split)
qed

lemma read_file_plain:
  assumes "store_ready R fs" and "plain_name name"
    and "fs (os_path_join (DESIGNS_DIR R) name) = Some (File data)"
  shows "read_file fs (os_path_join (DESIGNS_DIR R) name) = Inr data"
proof -
  have s: "CHR ''/'' \<notin> set name" and l: "length name \<le> NAME_MAX"
    using assms(2) by (simp_all add: plain_name_def)
  have b: "os_path_basename (os_path_join (DESIGNS_DIR R) name) = name"
    by (simp add: join_plain [OF s] basename_plain [OF s])
  show ?thesis
    unfolding read_file_def
    using assms(3) l trailing_plain [OF assms(2), of R]
    by (simp add: resolve_plain [OF assms(1,2)] b)
qed

lemma exists_plain:
  assumes "store_ready R fs" and "plain_name name"
  shows "os_path_exists fs (os_path_join (DESIGNS_DIR R) name)
           \<longleftrightarrow> fs (os_path_join (DESIGNS_DIR R) name) \<noteq> None"
proof -
  have s: "CHR ''/'' \<notin> set name" and l: "length name \<le> NAME_MAX"
    using assms(2) by (simp_all add: plain_name_def)
  have b: "os_path_basename (os_path_join (DESIGNS_DIR R) name) = name"
    by (simp add: join_plain [OF s] basename_plain [OF s])
  show ?thesis
    unfolding os_path_exists_def
    using l trailing_plain [OF assms(2), of R]
    by (simp add: resolve_plain [OF assms(1,2)] b split: option.split node.split)
qed

text \<open>Writing a file leaves the directories on the way to another path as they are.\<close>

lemma walk_dirs_update:
  assumes "fs q \<noteq> Some Dir"
  shows "walk_dirs fs cur comps = Inr d \<Longrightarrow> walk_dirs (fs(q \<mapsto> File x)) cur comps = Inr d"
proof (induction comps arbitrary: cur)
  case Nil
  then show ?case by simp
next
  case (Cons c comps)
  show ?case
  proof (cases "c = [] \<or> c = ''.'' \<or> c = ''..''")
    case True
    then show ?thesis
      using Cons by auto
  next
    case False
    then have dir: "fs (os_path_join cur c) = Some Dir"
      and rest: "walk_dirs fs (os_path_join cur c) comps = Inr d"
      and len: "\<not> NAME_MAX < length c"
      using Cons.prems by (auto split: if_splits option.splits node.splits)
    have "os_path_join cur c \<noteq> q"
      using dir assms by auto
    then show ?thesis
      using False dir len Cons.IH [OF rest] by simp
  qed
qed

lemma store_ready_update:
  assumes "store_ready R fs" and "fs q \<noteq> Some Dir"
  shows "store_ready R (fs(q \<mapsto> File x))"
  using assms(1) walk_dirs_update [of fs q _ _ _ x, OF assms(2)] by (simp add: store_ready_def)

lemma plain_json_name:
  assumes "plain_name (name @ ''.json'')"
  shows "CHR ''/'' \<notin> set name" and "CHR 0x00 \<notin> set name"
  using assms by (simp_all add: plain_name_def)





lemma designs_dir_app: "DESIGNS_DIR ''/app'' = ''/app/designs''"
  by (simp add: DESIGNS_DIR_def os_path_join_def startswith_def endswith_def)

lemma fs0_ready: "store_ready ''/app'' fs0"
  by (simp add: store_ready_def designs_dir_app startswith_def endswith_def fs0_def
      os_path_join_def NAME_MAX_def PATH_MAX_def)

lemma design_path_app:
  "CHR ''/'' \<notin> set ident \<Longrightarrow> design_path ''/app'' ident = ''/app/designs/'' @ ident @ ''.json''"
  using join_plain [of "ident @ ''.json''" "''/app''"]
  by (simp add: design_path_def designs_dir_app)

subsection \<open>Names and identifiers in ASCII\<close>

lemma lit_append [simp]: "lit (a @ b) = lit a @ lit b"
  by (simp add: lit_def)

lemma fsencode_lit: "\<forall>c \<in> set s. (of_char c :: nat) < 128 \<Longrightarrow> fsencode (lit s) = Inr s"
  by (induction s) (simp_all add: lit_def utf8_bytes_def)

lemma fsencode_append:
  "fsencode a = Inr x \<Longrightarrow> fsencode b = Inr y \<Longrightarrow> fsencode (a @ b) = Inr (x @ y)"
  by (induction a arbitrary: x) (auto split: sum.splits if_splits)

section \<open>The text that the encoder writes\<close>

text \<open>Whatever the document and however the encoding ends, the text written has code points
  below 256 only, so that the file can take it.\<close>

definition narrow :: "str \<Rightarrow> bool" where
  "narrow t = (\<forall>c \<in> set t. c < 0x100)"

lemma narrow_simps [simp]:
  "narrow []" "narrow (c # t) = (c < 0x100 \<and> narrow t)" "narrow (a @ b) = (narrow a \<and> narrow b)"
  by (auto simp: narrow_def)

lemma narrow_lit [simp]: "narrow (lit s)"
  by (simp add: narrow_def lit_def)

lemma narrow_concat: "(\<And>x. x \<in> set xs \<Longrightarrow> narrow x) \<Longrightarrow> narrow (concat xs)"
  by (induction xs) auto

lemma hex_digit_narrow: "n < 16 \<Longrightarrow> hex_digit n < 0x100"
  by (simp add: hex_digit_def)

lemma narrow_hex4 [simp]: "narrow (hex4 n)"
  by (simp add: hex4_def hex_digit_narrow)

lemma narrow_escape [simp]: "narrow (ascii_escape c)"
  by (simp add: ascii_escape_def)

lemma narrow_basestring [simp]: "narrow (encode_basestring_ascii s)"
proof -
  have "narrow (concat (map ascii_escape s))"
    by (rule narrow_concat) auto
  then show ?thesis
    by (simp add: encode_basestring_ascii_def)
qed

lemma narrow_digits10 [simp]: "narrow (digits10 n)"
proof (induction n rule: digits10.induct)
  case (1 n)
  show ?case
  proof (cases "n < 10")
    case True
    then show ?thesis by (subst digits10.simps) simp
  next
    case False
    have "n mod 10 < 10" by simp
    then have "48 + n mod 10 < 0x100" by linarith
    then show ?thesis
      using False 1 by (subst digits10.simps) simp
  qed
qed

lemma narrow_int_repr: "int_repr i = Inr t \<Longrightarrow> narrow t"
  by (auto simp: int_repr_def int_str_def split: if_splits)

lemma narrow_floatstr [simp]: "narrow (floatstr E x)"
  by (simp add: floatstr_def split: py_float.split)

lemma narrow_newline_indent [simp]: "narrow (newline_indent indent level)"
  by (simp add: newline_indent_def narrow_def)

lemma narrow_list_chunks:
  assumes "\<And>l t r. (l, t, r) \<in> set items \<Longrightarrow> narrow t" and "narrow buf" and "narrow sep"
  shows "narrow (fst (list_chunks buf sep items))"
  using assms
proof (induction items arbitrary: buf)
  case Nil
  show ?case by simp
next
  case (Cons item items)
  obtain l t r where item: "item = (l, t, r)" by (cases item)
  have t: "narrow t" using Cons.prems(1) [of l t r] item by simp
  have rest: "narrow (fst (list_chunks sep sep items))"
    using Cons.prems by (intro Cons.IH) auto
  show ?case
  proof (cases r)
    case None
    then show ?thesis
      using t rest Cons.prems(2) by (cases "list_chunks sep sep items") (simp add: item)
  next
    case (Some e)
    then show ?thesis
      using t Cons.prems(2) by (simp add: item)
  qed
qed

lemma narrow_dict_chunks:
  assumes "\<And>k t r. (k, t, r) \<in> set items \<Longrightarrow> narrow t" and "narrow sep"
  shows "narrow (fst (dict_chunks first sep items))"
  using assms
proof (induction items arbitrary: first)
  case Nil
  show ?case by simp
next
  case (Cons item items)
  obtain k t r where item: "item = (k, t, r)" by (cases item)
  have t: "narrow t" using Cons.prems(1) [of k t r] item by simp
  have rest: "narrow (fst (dict_chunks False sep items))"
    using Cons.prems by (intro Cons.IH) auto
  show ?case
  proof (cases r)
    case None
    then show ?thesis
      using t rest Cons.prems(2) by (cases "dict_chunks False sep items") (simp add: item Let_def)
  next
    case (Some e)
    then show ?thesis
      using t Cons.prems(2) by (simp add: item Let_def)
  qed
qed

lemma narrow_iterencode: "narrow (fst (iterencode E depth indent level j))"
proof (induction j arbitrary: depth level)
  case (JInt i)
  then show ?case
    using narrow_int_repr [of i] by (simp split: sum.split)
next
  case (JArr xs)
  have "narrow (fst (list_chunks (lit ''['' @ newline_indent indent (Suc level))
      (lit '','' @ newline_indent indent (Suc level))
      (map (\<lambda>x. (is_leaf x, iterencode E (depth - 1) indent (Suc level) x)) xs)))"
  proof (intro narrow_list_chunks)
    fix l t r
    assume "(l, t, r) \<in> set (map (\<lambda>x. (is_leaf x, iterencode E (depth - 1) indent (Suc level) x)) xs)"
    then obtain x where x: "x \<in> set xs"
      and t: "(t, r) = iterencode E (depth - 1) indent (Suc level) x"
      by auto
    have "narrow (fst (iterencode E (depth - 1) indent (Suc level) x))"
      using JArr x by blast
    then show "narrow t"
      using t by (metis fst_conv)
  qed simp_all
  then show ?case
    by (cases "list_chunks (lit ''['' @ newline_indent indent (Suc level))
      (lit '','' @ newline_indent indent (Suc level))
      (map (\<lambda>x. (is_leaf x, iterencode E (depth - 1) indent (Suc level) x)) xs)")
      (simp split: option.split)
next
  case (JObj kvs)
  have "narrow (fst (dict_chunks True (lit '','' @ newline_indent indent (Suc level))
      (map (\<lambda>kv. (fst kv, iterencode E (depth - 1) indent (Suc level) (snd kv))) kvs)))"
  proof (intro narrow_dict_chunks)
    fix k t r
    assume "(k, t, r) \<in> set (map (\<lambda>kv. (fst kv, iterencode E (depth - 1) indent (Suc level) (snd kv))) kvs)"
    then obtain kv where kv: "kv \<in> set kvs"
      and t: "(t, r) = iterencode E (depth - 1) indent (Suc level) (snd kv)"
      by auto
    have "snd kv \<in> Basic_BNFs.snds kv"
      by (cases kv) simp
    then have "narrow (fst (iterencode E (depth - 1) indent (Suc level) (snd kv)))"
      using JObj kv by blast
    then show "narrow t"
      using t by (metis fst_conv)
  qed simp
  then show ?case
    by (cases "dict_chunks True (lit '','' @ newline_indent indent (Suc level))
      (map (\<lambda>kv. (fst kv, iterencode E (depth - 1) indent (Suc level) (snd kv))) kvs)")
      (simp split: option.split)
qed simp_all

lemma utf8_bytes_narrow: "c < 0x100 \<Longrightarrow> \<exists>bs. utf8_bytes c = Inr bs"
  by (simp add: utf8_bytes_def)

lemma encode_utf8_narrow: "narrow t \<Longrightarrow> \<exists>bytes. encode_utf8 t = Inr bytes"
proof (induction t)
  case Nil
  show ?case by simp
next
  case (Cons c t)
  then obtain bs rest where "utf8_bytes c = Inr bs" and "encode_utf8 t = Inr rest"
    using utf8_bytes_narrow [of c] by auto
  then show ?case by simp
qed

lemma json_dump_bytes: "\<exists>bytes. encode_utf8 (fst (json_dump E indent obj)) = Inr bytes"
  unfolding json_dump_def by (intro encode_utf8_narrow narrow_iterencode)

subsection \<open>The handlers on a plain name\<close>

lemma save_design_plain:
  assumes "store_ready R fs"
    and "py_or (payload_design_id p) (lit (''design_'' @ take 12 u)) = ident"
    and "fsencode ident = Inr name" and "plain_name (name @ ''.json'')"
    and "fs (design_path R name) \<noteq> Some Dir"
    and "encode_utf8 (fst (json_dump E 2 (design_document ident p))) = Inr bytes"
  shows "save_design E R u p fs
           = ((case snd (json_dump E 2 (design_document ident p)) of
                 None \<Rightarrow> Inr (JObj [(lit ''status'', JStr (lit ''ok'')), (lit ''design_id'', JStr ident)])
               | Some e \<Rightarrow> Inl e),
              fs(design_path R name \<mapsto> File bytes))"
proof -
  have "write_file fs (design_path R name) bytes = Inr (fs(design_path R name \<mapsto> File bytes))"
    unfolding design_path_def
    using assms(1,4) assms(5) [unfolded design_path_def] by (rule write_file_plain)
  then show ?thesis
    using assms(2,3,6)
    by (cases "json_dump E 2 (design_document ident p)")
      (simp add: save_design_def Let_def split: option.split)
qed

lemma export_image_plain:
  assumes "store_ready R fs" and "image_bytes img = Inr data"
    and "py_or filename (lit (''export_'' @ take 8 u @ ''.png'')) = fname"
    and "fsencode fname = Inr name" and "plain_name name"
    and "fs (os_path_join (DESIGNS_DIR R) name) \<noteq> Some Dir"
  shows "export_image R u img filename fs
           = (Inr (JObj [(lit ''status'', JStr (lit ''ok'')), (lit ''file'', JStr fname)]),
              fs(os_path_join (DESIGNS_DIR R) name \<mapsto> File data))"
  using assms(2,3,4) write_file_plain [OF assms(1,5,6), of data]
  by (simp add: export_image_def Let_def)

section \<open>Base64 round trip\<close>

lemma b64_table:
  "n < 64 \<Longrightarrow> b64_value (b64_char n) = Some n \<and> b64_char n \<noteq> CHR ''=''
     \<and> (of_char (b64_char n) :: nat) < 128"
  by (auto simp: b64_char_def b64_value_def Let_def char_of_eq_iff take_bit_eq_mod)

lemma b64_value_char: "n < 64 \<Longrightarrow> b64_value (b64_char n) = Some n"
  using b64_table by simp

lemma b64_char_not_pad: "n < 64 \<Longrightarrow> b64_char n \<noteq> CHR ''=''"
  using b64_table by simp

lemma b64_char_ascii: "n < 64 \<Longrightarrow> (of_char (b64_char n) :: nat) < 128"
  using b64_table by simp

lemma a2b_step0:
  assumes "n < 64"
  shows "a2b_loop (b64_char n # cs) 0 l pads out = a2b_loop cs 1 n 0 out"
  using b64_value_char [OF assms] b64_char_not_pad [OF assms] by simp

lemma a2b_step1:
  assumes "n < 64"
  shows "a2b_loop (b64_char n # cs) 1 l pads out
           = a2b_loop cs 2 (n mod 16) 0 (out @ [char_of (l * 4 + n div 16)])"
  using b64_value_char [OF assms] b64_char_not_pad [OF assms] by simp

lemma a2b_step2:
  assumes "n < 64"
  shows "a2b_loop (b64_char n # cs) 2 l pads out
           = a2b_loop cs 3 (n mod 4) 0 (out @ [char_of (l * 16 + n div 4)])"
  using b64_value_char [OF assms] b64_char_not_pad [OF assms] by simp

lemma a2b_step3:
  assumes "n < 64"
  shows "a2b_loop (b64_char n # cs) 3 l pads out
           = a2b_loop cs 0 0 0 (out @ [char_of (l * 64 + n)])"
  using b64_value_char [OF assms] b64_char_not_pad [OF assms] by simp

lemma div_bounds:
  fixes x :: nat
  assumes "x < 256"
  shows "x div 4 < 64" and "x div 16 < 16" and "x div 64 < 4"
  using assms by simp_all

lemma sextet_bounds:
  fixes x y z :: nat
  assumes "y < 256" and "z < 256"
  shows "x mod 4 * 16 < 64" and "x mod 4 * 16 + y div 16 < 64"
    and "y mod 16 * 4 < 64" and "y mod 16 * 4 + z div 64 < 64" and "z mod 64 < 64"
proof -
  have m: "x mod 4 < 4" "y mod 16 < 16" by simp_all
  show "x mod 4 * 16 < 64" using m(1) by linarith
  show "x mod 4 * 16 + y div 16 < 64" using m(1) div_bounds(2) [OF assms(1)] by linarith
  show "y mod 16 * 4 < 64" using m(2) by linarith
  show "y mod 16 * 4 + z div 64 < 64" using m(2) div_bounds(3) [OF assms(2)] by linarith
  show "z mod 64 < 64" by simp
qed

lemma byte1: "x div 4 * 4 + x mod 4 * 16 div 16 = (x::nat)"
  by simp

lemma byte1': "y < 256 \<Longrightarrow> x div 4 * 4 + (x mod 4 * 16 + y div 16) div 16 = (x::nat)"
  using div_bounds(2) [of y] by simp

lemma byte2: "y < 256 \<Longrightarrow> (x mod 4 * 16 + y div 16) mod 16 * 16 + y mod 16 * 4 div 4 = (y::nat)"
  using div_bounds(2) [of y] by simp

lemma byte2':
  "y < 256 \<Longrightarrow> z < 256
     \<Longrightarrow> (x mod 4 * 16 + y div 16) mod 16 * 16 + (y mod 16 * 4 + z div 64) div 4 = (y::nat)"
  using div_bounds(2) [of y] div_bounds(3) [of z] by simp

lemma byte3: "z < 256 \<Longrightarrow> (y mod 16 * 4 + z div 64) mod 4 * 64 + z mod 64 = (z::nat)"
  using div_bounds(3) [of z] by simp

lemma a2b_pad2: "a2b_loop ''=='' 2 l 0 out = Inr out"
  by simp

lemma a2b_pad1: "a2b_loop ''='' 3 l 0 out = Inr out"
  by simp

lemma a2b_loop_encode: "a2b_loop (b64encode bs) 0 0 0 out = Inr (out @ bs)"
proof (induction bs arbitrary: out rule: b64encode.induct)
  case 1
  show ?case by simp
next
  case (2 a)
  let ?x = "of_char a :: nat"
  have x: "?x < 256" by simp
  note b0 = div_bounds(1) [OF x]
  note bd = sextet_bounds [OF x x]
  have "a2b_loop (b64encode [a]) 0 0 0 out
      = a2b_loop ''=='' 2 (?x mod 4 * 16 mod 16) 0 (out @ [char_of (?x div 4 * 4 + ?x mod 4 * 16 div 16)])"
    by (simp only: b64encode.simps Let_def a2b_step0 [OF b0] a2b_step1 [OF bd(1)])
  also have "\<dots> = Inr (out @ [char_of (?x div 4 * 4 + ?x mod 4 * 16 div 16)])"
    by (rule a2b_pad2)
  finally show ?case by (simp only: byte1 char_of_char)
next
  case (3 a b)
  let ?x = "of_char a :: nat" and ?y = "of_char b :: nat"
  have x: "?x < 256" and y: "?y < 256" by simp_all
  note b0 = div_bounds(1) [OF x]
  note bd = sextet_bounds [OF y y]
  have "a2b_loop (b64encode [a, b]) 0 0 0 out
      = a2b_loop ''='' 3 (?y mod 16 * 4 mod 4) 0
          ((out @ [char_of (?x div 4 * 4 + (?x mod 4 * 16 + ?y div 16) div 16)])
           @ [char_of ((?x mod 4 * 16 + ?y div 16) mod 16 * 16 + ?y mod 16 * 4 div 4)])"
    by (simp only: b64encode.simps Let_def a2b_step0 [OF b0] a2b_step1 [OF bd(2)]
        a2b_step2 [OF bd(3)])
  also have "\<dots> = Inr ((out @ [char_of (?x div 4 * 4 + (?x mod 4 * 16 + ?y div 16) div 16)])
           @ [char_of ((?x mod 4 * 16 + ?y div 16) mod 16 * 16 + ?y mod 16 * 4 div 4)])"
    by (rule a2b_pad1)
  finally show ?case
    by (simp only: byte1' [OF y, of ?x] byte2 [OF y, of ?x] char_of_char) simp
next
  case (4 a b c rest)
  let ?x = "of_char a :: nat" and ?y = "of_char b :: nat" and ?z = "of_char c :: nat"
  have x: "?x < 256" and y: "?y < 256" and z: "?z < 256" by simp_all
  note b0 = div_bounds(1) [OF x]
  note bd = sextet_bounds [OF y z]
  have "a2b_loop (b64encode (a # b # c # rest)) 0 0 0 out
      = a2b_loop (b64encode rest) 0 0 0
          (((out @ [char_of (?x div 4 * 4 + (?x mod 4 * 16 + ?y div 16) div 16)])
            @ [char_of ((?x mod 4 * 16 + ?y div 16) mod 16 * 16 + (?y mod 16 * 4 + ?z div 64) div 4)])
           @ [char_of ((?y mod 16 * 4 + ?z div 64) mod 4 * 64 + ?z mod 64)])"
    by (simp only: b64encode.simps Let_def append_Cons append_Nil a2b_step0 [OF b0]
        a2b_step1 [OF bd(2)] a2b_step2 [OF bd(4)] a2b_step3 [OF bd(5)])
  also have "\<dots> = Inr ((((out @ [char_of (?x div 4 * 4 + (?x mod 4 * 16 + ?y div 16) div 16)])
            @ [char_of ((?x mod 4 * 16 + ?y div 16) mod 16 * 16 + (?y mod 16 * 4 + ?z div 64) div 4)])
           @ [char_of ((?y mod 16 * 4 + ?z div 64) mod 4 * 64 + ?z mod 64)]) @ rest)"
    by (rule "4.IH" [OF refl refl refl])
  finally show ?case
    by (simp only: byte1' [OF y, of ?x] byte2' [OF y z, of ?x] byte3 [OF z, of ?y] char_of_char) simp
qed

lemma b64encode_chars:
  "c \<in> set (b64encode bs) \<Longrightarrow> c = CHR ''='' \<or> (\<exists>n < 64. c = b64_char n)"
proof (induction bs rule: b64encode.induct)
  case 1
  then show ?case by simp
next
  case (2 a)
  have x: "(of_char a :: nat) < 256" by simp
  note b0 = div_bounds(1) [OF x]
  note bd = sextet_bounds [OF x x]
  from 2 have "c = b64_char (of_char a div 4) \<or> c = b64_char (of_char a mod 4 * 16) \<or> c = CHR ''=''"
    by (auto simp: Let_def)
  then show ?case using b0 bd(1) by blast
next
  case (3 a b)
  have x: "(of_char a :: nat) < 256" and y: "(of_char b :: nat) < 256" by simp_all
  note b0 = div_bounds(1) [OF x]
  note bd = sextet_bounds [OF y y]
  from 3 have "c = b64_char (of_char a div 4)
      \<or> c = b64_char (of_char a mod 4 * 16 + of_char b div 16)
      \<or> c = b64_char (of_char b mod 16 * 4) \<or> c = CHR ''=''"
    by (auto simp: Let_def)
  then show ?case using b0 bd(2,3) by blast
next
  case (4 a b d rest)
  have x: "(of_char a :: nat) < 256" and y: "(of_char b :: nat) < 256"
    and z: "(of_char d :: nat) < 256" by simp_all
  note b0 = div_bounds(1) [OF x]
  note bd = sextet_bounds [OF y z]
  from "4.prems" have "c = b64_char (of_char a div 4)
      \<or> c = b64_char (of_char a mod 4 * 16 + of_char b div 16)
      \<or> c = b64_char (of_char b mod 16 * 4 + of_char d div 64)
      \<or> c = b64_char (of_char d mod 64) \<or> c \<in> set (b64encode rest)"
    by (auto simp: Let_def)
  then show ?case using b0 bd(2,4,5) "4.IH" [OF refl refl refl] by blast
qed

lemma b64encode_ascii: "c \<in> set (b64encode bs) \<Longrightarrow> (of_char c :: nat) < 128"
  using b64encode_chars [of c bs] b64_char_ascii by auto


lemma char_of_lit [simp]: "map char_of (lit s) = s"
  by (simp add: lit_def comp_def)

lemma b64decode_b64encode: "b64decode (lit (b64encode bs)) = Inr bs"
proof -
  have "\<not> (\<exists>c \<in> set (lit (b64encode bs)). 128 \<le> c)"
    using b64encode_ascii [of _ bs] by (auto simp: lit_def not_le)
  then show ?thesis
    using a2b_loop_encode [of bs "[]"] by (simp add: b64decode_def)
qed

lemma py_split1_first:
  "c \<notin> set h \<Longrightarrow> py_split1 c (h @ c # rest) = [h, rest]"
  by (induction h) auto

lemma startswith_append: "startswith (p @ s) p"
  by (simp add: startswith_def)

lemma image_bytes_uri:
  assumes "0x2C \<notin> set header"
  shows "image_bytes (lit ''data:'' @ header @ lit '','' @ b64) = b64decode b64"
proof -
  have "0x2C \<notin> set (lit ''data:'' @ header)"
    using assms by (simp add: lit_def)
  then have "py_split1 0x2C ((lit ''data:'' @ header) @ 0x2C # b64) = [lit ''data:'' @ header, b64]"
    by (rule py_split1_first)
  moreover have "lit '','' = [0x2C]"
    by (simp add: lit_def)
  moreover have "startswith (lit ''data:'' @ (header @ lit '','' @ b64)) (lit ''data:'')"
    by (rule startswith_append)
  ultimately show ?thesis
    by (simp add: image_bytes_def)
qed

lemma image_bytes_raw: "\<not> startswith b64 (lit ''data:'') \<Longrightarrow> image_bytes b64 = b64decode b64"
  by (simp add: image_bytes_def)

lemma b64_char_not_colon: "n < 64 \<Longrightarrow> b64_char n \<noteq> CHR '':''"
  using b64_value_char [of n] by (auto simp: b64_value_def)

lemma b64encode_not_uri: "\<not> startswith (lit (b64encode bs)) (lit ''data:'')"
proof
  assume "startswith (lit (b64encode bs)) (lit ''data:'')"
  then have "take (length (lit ''data:'')) (lit (b64encode bs)) = lit ''data:''"
    by (simp only: startswith_def)
  moreover have "length (lit ''data:'') = 5"
    by (simp add: lit_def)
  ultimately have "take 5 (lit (b64encode bs)) = lit ''data:''"
    by simp
  then have "map of_char (take 5 (b64encode bs)) = (map of_char ''data:'' :: nat list)"
    by (simp only: lit_def take_map)
  then have "take 5 (b64encode bs) = ''data:''"
    by (rule map_injective) (rule inj_of_char)
  then have "CHR '':'' \<in> set (take 5 (b64encode bs))"
    by simp
  then have "CHR '':'' \<in> set (b64encode bs)"
    by (rule in_set_takeD)
  then obtain n where "n < 64" and "CHR '':'' = b64_char n"
    using b64encode_chars [of "CHR '':''" bs] by auto
  then show False
    using b64_char_not_colon [of n] by simp
qed

lemma b64_hello: "b64encode ''hello'' = ''aGVsbG8=''"
  by code_simp

section \<open>Properties of the design store\<close>


definition payload1 :: SavePayload where
  "payload1 = \<lparr>payload_design_id = Some (lit ''d1''), payload_template_id = lit ''t.jpg'',
                payload_design_json = [(lit ''k'', JInt 1)]\<rparr>"

definition fs_app :: fs where
  "fs_app = fs0(''/app/main.py'' \<mapsto> File ''import os'')"





text \<open>
  C10. When the identifier is not empty and its file name \<^verbatim>\<open><id>.json\<close> is a plain name (no
  slash, no zero byte, at most 255 bytes): an export under that file name is written to the
  path of the design \<^verbatim>\<open><id>\<close>, which is an entry of the designs directory, so that an export
  after a save leaves the exported bytes there and a save after an export leaves there what
  \<^verbatim>\<open>json.dump\<close> writes of the design document; either operation leaves every other path of the
  file system as it was.
\<close>

theorem export_shares_designs_directory:
  assumes "store_ready R fs" and "ident \<noteq> []" and "fsencode ident = Inr name"
    and "plain_name (name @ ''.json'')"
    and "fs (design_path R name) \<noteq> Some Dir"
    and "payload_design_id p = Some ident" and "image_bytes img = Inr data"
  shows "os_path_dirname (design_path R name) = DESIGNS_DIR R
         \<and> snd (export_image R u' img (Some (ident @ lit ''.json'')) (snd (save_design E R u p fs)))
             = fs(design_path R name \<mapsto> File data)
         \<and> (\<exists>bytes. encode_utf8 (fst (json_dump E 2 (design_document ident p))) = Inr bytes
                \<and> snd (save_design E R u p
                         (snd (export_image R u' img (Some (ident @ lit ''.json'')) fs)))
                    = fs(design_path R name \<mapsto> File bytes))
         \<and> (\<forall>q. q \<noteq> design_path R name \<longrightarrow>
               snd (export_image R u' img (Some (ident @ lit ''.json'')) fs) q = fs q
               \<and> snd (save_design E R u p fs) q = fs q)"
proof -
  let ?path = "design_path R name"
  obtain bytes where b: "encode_utf8 (fst (json_dump E 2 (design_document ident p))) = Inr bytes"
    using json_dump_bytes by blast
  let ?r = "case snd (json_dump E 2 (design_document ident p)) of
              None \<Rightarrow> Inr (JObj [(lit ''status'', JStr (lit ''ok'')), (lit ''design_id'', JStr ident)])
            | Some e \<Rightarrow> Inl e"
  have id: "py_or (payload_design_id p) (lit (''design_'' @ take 12 u)) = ident"
    using assms(2,6) by (simp add: py_or_def)
  have fn: "py_or (Some (ident @ lit ''.json'')) (lit (''export_'' @ take 8 u' @ ''.png''))
      = ident @ lit ''.json''"
    by (simp add: py_or_def lit_def)
  have en: "fsencode (ident @ lit ''.json'') = Inr (name @ ''.json'')"
    using assms(3) by (rule fsencode_append) (simp add: fsencode_lit)
  have sl: "CHR ''/'' \<notin> set (name @ ''.json'')"
    using assms(4) by (simp add: plain_name_def)
  have save: "save_design E R u p fs' = (?r, fs'(?path \<mapsto> File bytes))"
    if "store_ready R fs'" and "fs' ?path \<noteq> Some Dir" for fs'
    using that(1) id assms(3,4) that(2) b by (rule save_design_plain)
  have export: "export_image R u' img (Some (ident @ lit ''.json'')) fs'
      = (Inr (JObj [(lit ''status'', JStr (lit ''ok'')), (lit ''file'', JStr (ident @ lit ''.json''))]),
         fs'(?path \<mapsto> File data))"
    if "store_ready R fs'" and "fs' ?path \<noteq> Some Dir" for fs'
    using export_image_plain [OF that(1) assms(7) fn en assms(4)] that(2)
    by (simp add: design_path_def)
  have ready': "store_ready R (fs(?path \<mapsto> File x))" for x
    using assms(1,5) by (rule store_ready_update)
  have c1: "os_path_dirname ?path = DESIGNS_DIR R"
    using sl by (simp add: design_path_def join_plain dirname_plain)
  have c2: "snd (export_image R u' img (Some (ident @ lit ''.json'')) (snd (save_design E R u p fs)))
      = fs(?path \<mapsto> File data)"
    using save [OF assms(1,5)] export [OF ready' [of bytes]] by simp
  have c3: "snd (save_design E R u p (snd (export_image R u' img (Some (ident @ lit ''.json'')) fs)))
      = fs(?path \<mapsto> File bytes)"
    using export [OF assms(1,5)] save [OF ready' [of data]] by simp
  have c4: "snd (export_image R u' img (Some (ident @ lit ''.json'')) fs) q = fs q
      \<and> snd (save_design E R u p fs) q = fs q" if "q \<noteq> ?path" for q
    using that save [OF assms(1,5)] export [OF assms(1,5)] by simp
  show ?thesis
    using c1 c2 b c3 c4 by blast
qed

lemma image_bytes_hello: "image_bytes (lit ''aGVsbG8='') = Inr ''hello''"
proof -
  have "image_bytes (lit (b64encode ''hello'')) = Inr ''hello''"
    by (simp only: image_bytes_raw [OF b64encode_not_uri] b64decode_b64encode)
  then show ?thesis
    by (simp only: b64_hello)
qed

theorem export_shares_designs_directory_witness:
  "store_ready ''/app'' fs0 \<and> lit ''d1'' \<noteq> [] \<and> fsencode (lit ''d1'') = Inr ''d1''
   \<and> plain_name (''d1'' @ ''.json'')
   \<and> fs0 (design_path ''/app'' ''d1'') \<noteq> Some Dir
   \<and> payload_design_id payload1 = Some (lit ''d1'')
   \<and> image_bytes (lit ''aGVsbG8='') = Inr ''hello''
   \<and> design_path ''/app'' ''d1'' = ''/app/designs/d1.json''
   \<and> os_path_dirname (design_path ''/app'' ''d1'') = DESIGNS_DIR ''/app''
   \<and> snd (export_image ''/app'' uuid0 (lit ''aGVsbG8='') (Some (lit ''d1'' @ lit ''.json''))
            (snd (save_design env0 ''/app'' uuid0 payload1 fs0)))
       = fs0(design_path ''/app'' ''d1'' \<mapsto> File ''hello'')"
proof -
  have h2: "lit ''d1'' \<noteq> []" and h4: "plain_name (''d1'' @ ''.json'')"
    by (simp_all add: lit_def plain_name_def NAME_MAX_def)
  have h3: "fsencode (lit ''d1'') = Inr ''d1''"
    by (intro fsencode_lit) simp
  have p: "design_path ''/app'' ''d1'' = ''/app/designs/d1.json''"
    using design_path_app [of "''d1''"] by simp
  have h5: "fs0 (design_path ''/app'' ''d1'') \<noteq> Some Dir"
    by (simp add: p fs0_def)
  have h6: "payload_design_id payload1 = Some (lit ''d1'')"
    by (simp add: payload1_def)
  show ?thesis
    using fs0_ready h2 h3 h4 h5 h6 image_bytes_hello p
      export_shares_designs_directory [OF fs0_ready h2 h3 h4 h5 h6 image_bytes_hello,
        of uuid0 env0 uuid0]
    by blast
qed

theorem export_shares_counterexample:
  "store_ready ''/app'' fs_app
   \<and> image_bytes (lit ''aGVsbG8='') = Inr ''hello''
   \<and> export_image ''/app'' uuid0 (lit ''aGVsbG8='') (Some (lit ''../main.py'')) fs_app
       = (Inr (JObj [(lit ''status'', JStr (lit ''ok'')), (lit ''file'', JStr (lit ''../main.py''))]),
          fs_app(''/app/main.py'' \<mapsto> File ''hello''))
   \<and> fs_app ''/app/main.py'' = Some (File ''import os'')
   \<and> os_path_dirname ''/app/main.py'' \<noteq> DESIGNS_DIR ''/app''"
proof -
  have r: "store_ready ''/app'' fs_app"
    unfolding fs_app_def using fs0_ready by (rule store_ready_update) (simp add: fs0_def)
  have fe: "fsencode (lit ''../main.py'') = Inr ''../main.py''"
    by (intro fsencode_lit) simp
  have po: "py_or (Some (lit ''../main.py'')) x = lit ''../main.py''" for x
    by (simp add: py_or_def lit_def)
  have wf: "write_file fs_app (os_path_join (DESIGNS_DIR ''/app'') ''../main.py'') ''hello''
      = Inr (fs_app(''/app/main.py'' \<mapsto> File ''hello''))"
    by (simp add: designs_dir_app os_path_join_def startswith_def endswith_def write_file_def
        resolve_def rstrip_def parent_def os_path_basename_def os_path_dirname_def
        trailing_slash_def fs_app_def fs0_def NAME_MAX_def PATH_MAX_def Let_def)
  have e: "export_image ''/app'' uuid0 (lit ''aGVsbG8='') (Some (lit ''../main.py'')) fs_app
       = (Inr (JObj [(lit ''status'', JStr (lit ''ok'')), (lit ''file'', JStr (lit ''../main.py''))]),
          fs_app(''/app/main.py'' \<mapsto> File ''hello''))"
    by (simp add: export_image_def image_bytes_hello po fe wf)
  have d: "os_path_dirname ''/app/main.py'' \<noteq> DESIGNS_DIR ''/app''"
    by (simp add: designs_dir_app os_path_dirname_def rstrip_def Let_def)
  show ?thesis
    using r image_bytes_hello e d by (simp add: fs_app_def)
qed

text \<open>
  C5. When the file name used is a plain name (not empty, not \<^verbatim>\<open>.\<close> or \<^verbatim>\<open>..\<close>, without a slash
  or a zero byte, of at most 255 bytes) and not that of a directory: for a payload with a
  data-URI header (without a comma) or without one, \<^verbatim>\<open>export\<close> decodes what follows the first
  comma, or the whole payload, writes exactly the decoded bytes and returns the file name
  used: the one supplied when it is not empty, a generated one otherwise. For the standard
  encoding of any bytes, the bytes written are those bytes.
\<close>

theorem export_round_trip:
  assumes "store_ready R fs"
    and "py_or filename (lit (''export_'' @ take 8 u @ ''.png'')) = fname"
    and "fsencode fname = Inr name" and "plain_name name"
    and "fs (os_path_join (DESIGNS_DIR R) name) \<noteq> Some Dir"
    and "0x2C \<notin> set header"
  shows "export_image R u (lit ''data:'' @ header @ lit '','' @ lit (b64encode bytes)) filename fs
           = (Inr (JObj [(lit ''status'', JStr (lit ''ok'')), (lit ''file'', JStr fname)]),
              fs(os_path_join (DESIGNS_DIR R) name \<mapsto> File bytes))
         \<and> export_image R u (lit (b64encode bytes)) filename fs
           = (Inr (JObj [(lit ''status'', JStr (lit ''ok'')), (lit ''file'', JStr fname)]),
              fs(os_path_join (DESIGNS_DIR R) name \<mapsto> File bytes))
         \<and> (\<forall>b64 data. b64decode b64 = Inr data \<longrightarrow>
               export_image R u (lit ''data:'' @ header @ lit '','' @ b64) filename fs
                 = (Inr (JObj [(lit ''status'', JStr (lit ''ok'')), (lit ''file'', JStr fname)]),
                    fs(os_path_join (DESIGNS_DIR R) name \<mapsto> File data))
               \<and> (\<not> startswith b64 (lit ''data:'') \<longrightarrow>
                    export_image R u b64 filename fs
                      = (Inr (JObj [(lit ''status'', JStr (lit ''ok'')), (lit ''file'', JStr fname)]),
                         fs(os_path_join (DESIGNS_DIR R) name \<mapsto> File data))))
         \<and> (\<forall>f. filename = Some f \<longrightarrow> f \<noteq> [] \<longrightarrow> fname = f)
         \<and> (filename = None \<longrightarrow> fname = lit (''export_'' @ take 8 u @ ''.png''))"
proof -
  let ?ok = "Inr (JObj [(lit ''status'', JStr (lit ''ok'')), (lit ''file'', JStr fname)])"
  have ex: "export_image R u img filename fs
      = (?ok, fs(os_path_join (DESIGNS_DIR R) name \<mapsto> File data))"
    if "image_bytes img = Inr data" for img data
    using assms(1) that assms(2,3,4,5) by (rule export_image_plain)
  have c1: "export_image R u (lit ''data:'' @ header @ lit '','' @ lit (b64encode bytes)) filename fs
      = (?ok, fs(os_path_join (DESIGNS_DIR R) name \<mapsto> File bytes))"
    by (rule ex) (simp only: image_bytes_uri [OF assms(6)] b64decode_b64encode)
  have c2: "export_image R u (lit (b64encode bytes)) filename fs
      = (?ok, fs(os_path_join (DESIGNS_DIR R) name \<mapsto> File bytes))"
    by (rule ex) (simp only: image_bytes_raw [OF b64encode_not_uri] b64decode_b64encode)
  have c3: "export_image R u (lit ''data:'' @ header @ lit '','' @ b64) filename fs
      = (?ok, fs(os_path_join (DESIGNS_DIR R) name \<mapsto> File data))"
    if "b64decode b64 = Inr data" for b64 data
    by (rule ex) (simp only: image_bytes_uri [OF assms(6)] that)
  have c4: "export_image R u b64 filename fs
      = (?ok, fs(os_path_join (DESIGNS_DIR R) name \<mapsto> File data))"
    if "b64decode b64 = Inr data" and "\<not> startswith b64 (lit ''data:'')" for b64 data
    by (rule ex) (simp only: image_bytes_raw [OF that(2)] that(1))
  have c5: "fname = f" if "filename = Some f" and "f \<noteq> []" for f
    using assms(2) that by (simp add: py_or_def)
  have c6: "fname = lit (''export_'' @ take 8 u @ ''.png'')" if "filename = None"
    using assms(2) that by (simp add: py_or_def)
  show ?thesis
    using c1 c2 c3 c4 c5 c6 by blast
qed

theorem export_round_trip_witness:
  "store_ready ''/app'' fs0
   \<and> py_or None (lit (''export_'' @ take 8 uuid0 @ ''.png'')) = lit ''export_01234567.png''
   \<and> fsencode (lit ''export_01234567.png'') = Inr ''export_01234567.png''
   \<and> plain_name ''export_01234567.png''
   \<and> fs0 (os_path_join (DESIGNS_DIR ''/app'') ''export_01234567.png'') \<noteq> Some Dir
   \<and> 0x2C \<notin> set (lit ''image/png;base64'')
   \<and> export_image ''/app'' uuid0
        (lit ''data:'' @ lit ''image/png;base64'' @ lit '','' @ lit (b64encode ''hello'')) None fs0
       = (Inr (JObj [(lit ''status'', JStr (lit ''ok'')),
                     (lit ''file'', JStr (lit ''export_01234567.png''))]),
          fs0(os_path_join (DESIGNS_DIR ''/app'') ''export_01234567.png'' \<mapsto> File ''hello''))
   \<and> lit ''data:'' @ lit ''image/png;base64'' @ lit '','' @ lit (b64encode ''hello'')
       = lit ''data:image/png;base64,aGVsbG8=''"
proof -
  have h2: "py_or None (lit (''export_'' @ take 8 uuid0 @ ''.png'')) = lit ''export_01234567.png''"
    by (simp add: py_or_def uuid0_def)
  have h3: "fsencode (lit ''export_01234567.png'') = Inr ''export_01234567.png''"
    by (intro fsencode_lit) simp
  have h4: "plain_name ''export_01234567.png''"
    by (simp add: plain_name_def NAME_MAX_def)
  have h5: "fs0 (os_path_join (DESIGNS_DIR ''/app'') ''export_01234567.png'') \<noteq> Some Dir"
    by (simp add: designs_dir_app os_path_join_def startswith_def endswith_def fs0_def)
  have h6: "0x2C \<notin> set (lit ''image/png;base64'')"
    by (simp add: lit_def)
  have e: "lit ''data:'' @ lit ''image/png;base64'' @ lit '','' @ lit (b64encode ''hello'')
      = lit ''data:image/png;base64,aGVsbG8=''"
    by (simp only: b64_hello) (simp add: lit_def)
  show ?thesis
    using fs0_ready h2 h3 h4 h5 h6 e
      export_round_trip [OF fs0_ready h2 h3 h4 h5 h6, of "''hello''"]
    by blast
qed

theorem export_round_trip_counterexample:
  "image_bytes (lit ''aGVsbG8='') = Inr ''hello''
   \<and> store_ready ''/app'' fs0
   \<and> export_image ''/app'' uuid0 (lit ''aGVsbG8='') (Some (lit ''a/b.png'')) fs0
       = (Inl FileNotFoundError, fs0)"
proof -
  have fe: "fsencode (lit ''a/b.png'') = Inr ''a/b.png''"
    by (intro fsencode_lit) simp
  have po: "py_or (Some (lit ''a/b.png'')) x = lit ''a/b.png''" for x
    by (simp add: py_or_def lit_def)
  have wf: "write_file fs0 (os_path_join (DESIGNS_DIR ''/app'') ''a/b.png'') ''hello''
      = Inl FileNotFoundError"
    by (simp add: designs_dir_app os_path_join_def startswith_def endswith_def write_file_def
        resolve_def rstrip_def fs0_def NAME_MAX_def PATH_MAX_def Let_def)
  have e: "export_image ''/app'' uuid0 (lit ''aGVsbG8='') (Some (lit ''a/b.png'')) fs0
       = (Inl FileNotFoundError, fs0)"
    by (simp add: export_image_def image_bytes_hello po fe wf)
  show ?thesis
    using image_bytes_hello fs0_ready e by simp
qed

end
